theory Spec2Isabelle
  imports Main "HOL-Library.Sublist" "HOL-Library.Char_ord" "HOL-Library.List_Lexorder"
begin

section \<open>Python values, attributes and exceptions\<close>

text \<open>
  The exceptions the modelled code can raise. \<open>Exception\<close> and \<open>PreventUpdate\<close> carry the
  message of the \<^verbatim>\<open>raise\<close> statement; \<open>KeyError\<close> carries the missing key.
  \<open>ConnectionError\<close> stands for any exception of \<^verbatim>\<open>requests.post\<close> and
  \<open>JSONDecodeError\<close> for a body that \<^verbatim>\<open>response.json()\<close> cannot decode.
\<close>

datatype error =
    AttributeError
  | TypeError
  | IndexError
  | KeyError string
  | UnboundLocalError
  | ConnectionError
  | JSONDecodeError
  | Exception string
  | PreventUpdate string

text \<open>
  An attribute of a Python object is in one of three states: the object has no such
  attribute (\<^verbatim>\<open>hasattr\<close> is false and reading it raises AttributeError), the attribute is
  \<^verbatim>\<open>None\<close>, or it holds a value. Objects built by the FHIR client always have their
  declared attributes (absent elements are \<^verbatim>\<open>None\<close>); the third state covers objects
  that lack them.
\<close>

datatype 'a attr = Absent | PyNone | Val 'a

text \<open>\<^verbatim>\<open>hasattr(obj, 'f')\<close> for an object \<open>obj\<close> whose attribute \<open>f\<close> is in state \<open>a\<close>.\<close>

definition hasattr :: "'a attr \<Rightarrow> bool" where
  "hasattr a = (a \<noteq> Absent)"

text \<open>\<^verbatim>\<open>obj.f\<close>: the value read (\<open>None\<close> for Python's \<^verbatim>\<open>None\<close>), or AttributeError.\<close>

definition getattr :: "'a attr \<Rightarrow> error + 'a option" where
  "getattr a = (case a of Absent \<Rightarrow> Inl AttributeError | PyNone \<Rightarrow> Inr None | Val v \<Rightarrow> Inr (Some v))"

text \<open>Sequencing of steps that may raise: the first exception ends the computation.\<close>

definition bindE :: "error + 'a \<Rightarrow> ('a \<Rightarrow> error + 'b) \<Rightarrow> error + 'b" where
  "bindE m f = (case m of Inl e \<Rightarrow> Inl e | Inr v \<Rightarrow> f v)"

text \<open>\<^verbatim>\<open>sep.join(xs)\<close> on a list of strings.\<close>

fun join :: "string \<Rightarrow> string list \<Rightarrow> string" where
  "join sep [] = []"
| "join sep [x] = x"
| "join sep (x # y # ys) = x @ sep @ join sep (y # ys)"


section \<open>Condition Summarizer (utils.py, generate\_clinical\_details\_table, lines 42-74)\<close>

record coding =
  display :: "string attr"
  coding_code :: "string attr"

record codeable_concept =
  cc_text :: "string attr"
  cc_coding :: "coding list attr"

record condition =
  code :: "codeable_concept attr"
  clinicalStatus :: "codeable_concept attr"
  verificationStatus :: "codeable_concept attr"

text \<open>
  Lines 49-52: the loop over \<^verbatim>\<open>condition.code.coding\<close>. The first entry that has a
  \<^verbatim>\<open>display\<close> attribute supplies the name (its value may be \<^verbatim>\<open>None\<close>) and ends the
  loop; if no entry has one, the name keeps the value it had before the loop.
\<close>

fun first_display :: "coding list \<Rightarrow> string option \<Rightarrow> string option" where
  "first_display [] name = name"
| "first_display (c # cs) name =
     (if hasattr (display c) then (case display c of Val d \<Rightarrow> Some d | _ \<Rightarrow> None)
      else first_display cs name)"

text \<open>
  Lines 44-54. \<^verbatim>\<open>hasattr(condition.code, 'text')\<close> is false when \<^verbatim>\<open>condition.code\<close>
  is \<^verbatim>\<open>None\<close>, so is the test for \<^verbatim>\<open>coding\<close>, and the \<^verbatim>\<open>else\<close> branch raises.
  The result is the Python value of \<^verbatim>\<open>condition_name\<close>: a string, or \<open>None\<close> for
  \<^verbatim>\<open>None\<close>.
\<close>

definition no_code_message :: string where
  "no_code_message = ''A Condition resource has no 'code' element''"

definition condition_name_of :: "condition \<Rightarrow> error + string option" where
  "condition_name_of c =
     (case code c of
        Absent \<Rightarrow> Inr (Some '''')
      | PyNone \<Rightarrow> Inl (Exception no_code_message)
      | Val cc \<Rightarrow>
          (if hasattr (cc_text cc) then getattr (cc_text cc)
           else if hasattr (cc_coding cc) then
             (case cc_coding cc of
                Val cs \<Rightarrow> Inr (first_display cs (Some ''''))
              | _ \<Rightarrow> Inl TypeError)
           else Inl (Exception no_code_message)))"

text \<open>
  \<^verbatim>\<open>cc.coding[0].code\<close>: subscripting \<^verbatim>\<open>None\<close> raises TypeError, an empty list
  IndexError, and an entry without the attribute AttributeError.
\<close>

definition first_coding_code :: "codeable_concept \<Rightarrow> error + string option" where
  "first_coding_code cc =
     (case cc_coding cc of
        Absent \<Rightarrow> Inl AttributeError
      | PyNone \<Rightarrow> Inl TypeError
      | Val [] \<Rightarrow> Inl IndexError
      | Val (c # cs) \<Rightarrow> getattr (coding_code c))"

text \<open>
  Lines 56-61 for \<^verbatim>\<open>clinicalStatus\<close> and lines 63-68 for \<^verbatim>\<open>verificationStatus\<close>: the
  same statements on the two attributes. The two tests are separate \<^verbatim>\<open>if\<close> statements,
  run one after the other.
\<close>

definition status_of :: "codeable_concept attr \<Rightarrow> error + string option" where
  "status_of st =
     (let status0 = Some ''Unknown'' in
      if hasattr st then
        (case st of
           Val cc \<Rightarrow>
             bindE (if hasattr (cc_text cc) then getattr (cc_text cc) else Inr status0)
               (\<lambda>status1. if hasattr (cc_coding cc) then first_coding_code cc else Inr status1)
         | _ \<Rightarrow> Inr status0)
      else Inr status0)"

record condition_row =
  condition_name :: "string option"
  clinical_status :: "string option"
  verification_status :: "string option"

text \<open>Lines 44-74: the body of the loop, for one condition.\<close>

definition condition_details :: "condition \<Rightarrow> error + condition_row" where
  "condition_details c =
     bindE (condition_name_of c) (\<lambda>n.
     bindE (status_of (clinicalStatus c)) (\<lambda>cs.
     bindE (status_of (verificationStatus c)) (\<lambda>vs.
       Inr \<lparr>condition_name = n, clinical_status = cs, verification_status = vs\<rparr>)))"

text \<open>Lines 39-74: the loop; an exception in one condition ends it.\<close>

fun condition_rows :: "condition list \<Rightarrow> error + condition_row list" where
  "condition_rows [] = Inr []"
| "condition_rows (c # cs) =
     bindE (condition_details c) (\<lambda>r.
     bindE (condition_rows cs) (\<lambda>rs. Inr (r # rs)))"

text \<open>
  Line 77: the list is sorted in place by the clinical status, a stable sort on strings.
  Sorting two or more rows compares every key with another one, and a comparison with
  \<^verbatim>\<open>None\<close> raises TypeError; a list of fewer than two rows is not compared at all.
\<close>

definition sort_by_clinical_status :: "condition_row list \<Rightarrow> error + condition_row list" where
  "sort_by_clinical_status rows =
     (if 2 \<le> length rows \<and> list_ex (\<lambda>r. clinical_status r = None) rows then Inl TypeError
      else Inr (sort_key (\<lambda>r. case clinical_status r of Some s \<Rightarrow> s | None \<Rightarrow> []) rows))"

text \<open>Lines 39-77: the list of rows that the conditions table is built from.\<close>

definition health_conditions_list :: "condition list \<Rightarrow> error + condition_row list" where
  "health_conditions_list cs = bindE (condition_rows cs) sort_by_clinical_status"


section \<open>Demographics Extractor (utils.py, get\_patient\_demographics, lines 262-340)\<close>

record human_name =
  name_use :: "string attr"
  name_text :: "string attr"
  given :: "string list attr"
  family :: "string attr"

record postal_address =
  addr_text :: "string attr"
  line :: "string list attr"
  city :: "string attr"
  district :: "string attr"
  state :: "string attr"
  postalCode :: "string attr"
  country :: "string attr"

record fhir_date =
  isostring :: "string attr"

record patient =
  name :: "human_name list attr"
  gender :: "string attr"
  birthDate :: "fhir_date attr"
  address :: "postal_address list attr"

text \<open>
  The local variable \<^verbatim>\<open>name\<close> of get\_patient\_demographics holds \<^verbatim>\<open>None\<close> (line
  264), then the name entry the \<^verbatim>\<open>for\<close> statement of line 265 binds to it, then the
  string assigned in line 269 or 274.
\<close>

datatype name_value = NameNone | NameEntry human_name | NameStr string

text \<open>
  Truth value of an object in a condition: \<^verbatim>\<open>None\<close> and the empty string are false; a
  name entry is an object without \<^verbatim>\<open>__bool__\<close> or \<^verbatim>\<open>__len__\<close>, hence true.
\<close>

fun truthy_name :: "name_value \<Rightarrow> bool" where
  "truthy_name NameNone = False"
| "truthy_name (NameEntry n) = True"
| "truthy_name (NameStr s) = (s \<noteq> [])"

definition truthy_str :: "string option \<Rightarrow> bool" where
  "truthy_str v = (case v of None \<Rightarrow> False | Some s \<Rightarrow> s \<noteq> [])"

text \<open>
  Lines 268-269 (and 273-274 for \<^verbatim>\<open>patient.name[0]\<close>): the given names are joined
  first; the text is taken when it is not \<^verbatim>\<open>None\<close>, otherwise the family name is
  appended after a space. \<^verbatim>\<open>" ".join(None)\<close> and \<^verbatim>\<open>str + None\<close> raise TypeError.
\<close>

definition full_name :: "human_name \<Rightarrow> error + string" where
  "full_name n =
     bindE (getattr (given n)) (\<lambda>g.
       case g of
         None \<Rightarrow> Inl TypeError
       | Some gs \<Rightarrow>
           (let firstNames = join '' '' gs in
            bindE (getattr (name_text n)) (\<lambda>t.
              case t of
                Some s \<Rightarrow> Inr s
              | None \<Rightarrow>
                  bindE (getattr (family n)) (\<lambda>f.
                    case f of
                      None \<Rightarrow> Inl TypeError
                    | Some fam \<Rightarrow> Inr (firstNames @ '' '' @ fam)))))"

text \<open>
  Lines 265-270: the loop. Each iteration binds \<^verbatim>\<open>name\<close> to the entry; the test
  \<^verbatim>\<open>"official" in name.use\<close> is the substring test on a string and raises TypeError on
  \<^verbatim>\<open>None\<close>. The second argument is the value of \<^verbatim>\<open>name\<close> when the loop ends
  without a \<^verbatim>\<open>break\<close>.
\<close>

fun official_loop :: "human_name list \<Rightarrow> name_value \<Rightarrow> error + name_value" where
  "official_loop [] nm = Inr nm"
| "official_loop (n # ns) nm =
     bindE (getattr (name_use n)) (\<lambda>u.
       case u of
         None \<Rightarrow> Inl TypeError
       | Some use \<Rightarrow>
           if sublist ''official'' use
           then bindE (full_name n) (\<lambda>s. Inr (NameStr s))
           else official_loop ns (NameEntry n))"

text \<open>Lines 264-274.\<close>

definition name_step :: "patient \<Rightarrow> error + name_value" where
  "name_step p =
     bindE (getattr (name p)) (\<lambda>ns.
       case ns of
         None \<Rightarrow> Inl TypeError
       | Some names \<Rightarrow>
           bindE (official_loop names NameNone) (\<lambda>nm.
             if \<not> truthy_name nm then
               (case names of
                  [] \<Rightarrow> Inl IndexError
                | n0 # rest \<Rightarrow> bindE (full_name n0) (\<lambda>s. Inr (NameStr s)))
             else Inr nm))"

text \<open>Line 277.\<close>

definition sex_step :: "patient \<Rightarrow> error + string" where
  "sex_step p =
     bindE (getattr (gender p)) (\<lambda>g.
       if truthy_str g then (case g of Some s \<Rightarrow> Inr s | None \<Rightarrow> Inr ''Unknown'')
       else Inr ''Unknown'')"

text \<open>Line 280; the date object, when there is one, is true.\<close>

definition birthday_step :: "patient \<Rightarrow> error + string option" where
  "birthday_step p =
     bindE (getattr (birthDate p)) (\<lambda>b.
       case b of
         Some d \<Rightarrow> getattr (isostring d)
       | None \<Rightarrow> Inr (Some ''Unknown''))"

text \<open>\<^verbatim>\<open>filter(None, xs)\<close>: the elements that are true, here the non-empty strings.\<close>

fun filter_truthy :: "string option list \<Rightarrow> string list" where
  "filter_truthy [] = []"
| "filter_truthy (None # xs) = filter_truthy xs"
| "filter_truthy (Some s # xs) = (if s \<noteq> [] then s # filter_truthy xs else filter_truthy xs)"

text \<open>
  Lines 293-304, for the single address. In lines 299-303 the condition is the pair
  \<^verbatim>\<open>(address, 'city')\<close>, which is true, so each field is read unconditionally.
\<close>

definition address_string :: "postal_address \<Rightarrow> error + string" where
  "address_string a =
     bindE (getattr (addr_text a)) (\<lambda>t.
       if truthy_str t then (case t of Some s \<Rightarrow> Inr s | None \<Rightarrow> Inl TypeError)
       else
         bindE (if hasattr (line a) then getattr (line a) else Inr (Some [])) (\<lambda>lines.
         bindE (getattr (city a)) (\<lambda>city'.
         bindE (getattr (district a)) (\<lambda>district'.
         bindE (getattr (state a)) (\<lambda>state'.
         bindE (getattr (postalCode a)) (\<lambda>postal_code.
         bindE (getattr (country a)) (\<lambda>country'.
           case lines of
             None \<Rightarrow> Inl TypeError
           | Some ls \<Rightarrow>
               Inr (join '', ''
                 (filter_truthy
                   [Some (join '', '' ls), city', district', state', postal_code, country']))
         )))))))"

definition multiple_addresses_message :: string where
  "multiple_addresses_message = ''Multiple addresses detected!''"

text \<open>
  Lines 292-306. The result is the value of the local variable \<^verbatim>\<open>address\<close> after the
  statement, \<open>None\<close> when neither branch assigned it (the list is empty).
\<close>

definition address_step :: "patient \<Rightarrow> error + string option" where
  "address_step p =
     bindE (getattr (address p)) (\<lambda>as.
       case as of
         None \<Rightarrow> Inl TypeError
       | Some addrs \<Rightarrow>
           if length addrs = 1 then
             (case addrs of a # rest \<Rightarrow> bindE (address_string a) (\<lambda>s. Inr (Some s))
                          | [] \<Rightarrow> Inl IndexError)
           else if length addrs > 1 then Inl (Exception multiple_addresses_message)
           else Inr None)"

text \<open>
  The whole function. Line 340 reads \<^verbatim>\<open>address\<close>; a local variable that was never
  assigned raises UnboundLocalError.
\<close>

definition get_patient_demographics ::
    "patient \<Rightarrow> error + (name_value \<times> string \<times> string option \<times> string)" where
  "get_patient_demographics p =
     bindE (name_step p) (\<lambda>nm.
     bindE (sex_step p) (\<lambda>sex.
     bindE (birthday_step p) (\<lambda>birthday.
     bindE (address_step p) (\<lambda>a.
       case a of
         None \<Rightarrow> Inl UnboundLocalError
       | Some addr \<Rightarrow> Inr (nm, sex, birthday, addr)))))"

definition no_address_message :: string where
  "no_address_message = ''No address found for the patient.''"

definition demographics_failed_message :: string where
  "demographics_failed_message = ''Something went wrong processing the patient's demographics''"

text \<open>
  visualization.py, handle\_callback, lines 60-69: the guard on the address list, then the
  call inside \<^verbatim>\<open>try\<close>, whose \<^verbatim>\<open>except Exception\<close> replaces every exception.
\<close>

definition callback_demographics ::
    "patient \<Rightarrow> error + (name_value \<times> string \<times> string option \<times> string)" where
  "callback_demographics p =
     (if \<not> hasattr (address p) then Inl (PreventUpdate no_address_message)
      else
        (case address p of
           Val addrs \<Rightarrow>
             if length addrs \<noteq> 0 then
               (case get_patient_demographics p of
                  Inl e \<Rightarrow> Inl (PreventUpdate demographics_failed_message)
                | Inr r \<Rightarrow> Inr r)
             else Inl (PreventUpdate no_address_message)
         | _ \<Rightarrow> Inl TypeError))"


section \<open>Environmental Reading Aggregator (visualization.py, handle\_callback, lines 95-146)\<close>

text \<open>
  The decoded JSON bodies, restricted to the keys the code reads. A key of a JSON object is
  present or missing (\<open>None\<close>); a present key is assumed to hold a value of the type the
  service documents. The body of the current-conditions endpoint has the keys of an hourly
  entry, so the response record extends the entry record.
\<close>

record index =
  aqi :: "int option"

record hour_info =
  dateTime :: "string option"
  indexes :: "index list option"

record response = hour_info +
  hoursInfo :: "hour_info list option"
  hourlyForecasts :: "hour_info list option"
  nextPageToken :: "string option"

text \<open>
  A request: the endpoint name placed in the URL (the loop variable \<^verbatim>\<open>time\<close>) and the
  keys of the body that are constants or the page token. The location and the forecast
  period are the same in every request of one run and are not modelled.
\<close>

record request =
  url_time :: string
  body_hours :: "int option"
  body_pageSize :: "int option"
  body_universalAqi :: "string option"
  pageToken :: "string option"

text \<open>
  The service is a parameter: it answers the latest request of the requests made so far,
  with a decoded body or with the exception that \<^verbatim>\<open>requests.post\<close> or
  \<^verbatim>\<open>response.json()\<close> raises. The list of requests made so far is the state that
  \<^verbatim>\<open>requests.post\<close> changes.
\<close>

type_synonym call_log = "request list"
type_synonym server = "call_log \<Rightarrow> error + response"

definition requests_post :: "server \<Rightarrow> call_log \<Rightarrow> request \<Rightarrow> (error + response) \<times> call_log" where
  "requests_post srv log req = (srv (log @ [req]), log @ [req])"

text \<open>
  The dictionary \<^verbatim>\<open>aqi_results\<close>, in insertion order. \<^verbatim>\<open>d.update({k: v})\<close> replaces
  the value of a key that is there, at its place, and appends a new key at the end.
\<close>

type_synonym aqi_results = "(string \<times> int) list"

fun dict_update :: "string \<Rightarrow> int \<Rightarrow> aqi_results \<Rightarrow> aqi_results" where
  "dict_update k v [] = [(k, v)]"
| "dict_update k v ((k', v') # d) =
     (if k' = k then (k, v) # d else (k', v') # dict_update k v d)"

text \<open>
  The pair \<^verbatim>\<open>h['dateTime']: h['indexes'][0]['aqi']\<close> of lines 113, 126 and 142; the key
  expression is evaluated before the value expression.
\<close>

definition reading :: "'a hour_info_scheme \<Rightarrow> error + (string \<times> int)" where
  "reading h =
     (case dateTime h of
        None \<Rightarrow> Inl (KeyError ''dateTime'')
      | Some t \<Rightarrow>
          (case indexes h of
             None \<Rightarrow> Inl (KeyError ''indexes'')
           | Some [] \<Rightarrow> Inl IndexError
           | Some (i # rest) \<Rightarrow>
               (case aqi i of
                  None \<Rightarrow> Inl (KeyError ''aqi'')
                | Some v \<Rightarrow> Inr (t, v))))"

text \<open>Lines 112-113: the entries of one history page; line 113 guards the update.\<close>

fun history_page :: "hour_info list \<Rightarrow> aqi_results \<Rightarrow> error + aqi_results" where
  "history_page [] d = Inr d"
| "history_page (h # hs) d =
     (if dateTime h \<noteq> None \<and> indexes h \<noteq> None
      then bindE (reading h) (\<lambda>(k, v). history_page hs (dict_update k v d))
      else history_page hs d)"

text \<open>Lines 141-142: the entries of one forecast page; the update is not guarded.\<close>

fun forecast_page :: "hour_info list \<Rightarrow> aqi_results \<Rightarrow> error + aqi_results" where
  "forecast_page [] d = Inr d"
| "forecast_page (h # hs) d =
     bindE (reading h) (\<lambda>(k, v). forecast_page hs (dict_update k v d))"

definition history_request :: "string option \<Rightarrow> request" where
  "history_request tok =
     \<lparr>url_time = ''history'', body_hours = Some 720, body_pageSize = Some 720,
      body_universalAqi = None, pageToken = tok\<rparr>"

definition current_request :: request where
  "current_request =
     \<lparr>url_time = ''currentConditions'', body_hours = None, body_pageSize = None,
      body_universalAqi = None, pageToken = None\<rparr>"

definition forecast_request :: "string option \<Rightarrow> request" where
  "forecast_request tok =
     \<lparr>url_time = ''forecast'', body_hours = None, body_pageSize = None,
      body_universalAqi = Some ''true'', pageToken = tok\<rparr>"

text \<open>
  Lines 110-117: the \<^verbatim>\<open>while True\<close> loop of the history case. The loop has no bound, so
  the function is partial: \<open>None\<close> is a run that never leaves the loop. A run that ends
  gives the dictionary or the exception, and the requests made.
\<close>

partial_function (option) history_loop ::
    "server \<Rightarrow> string option \<Rightarrow> aqi_results \<Rightarrow> call_log
       \<Rightarrow> ((error + aqi_results) \<times> call_log) option" where
  "history_loop srv tok d log =
     (case requests_post srv log (history_request tok) of
        (Inl e, log') \<Rightarrow> Some (Inl e, log')
      | (Inr resp, log') \<Rightarrow>
          (case hoursInfo resp of
             None \<Rightarrow> Some (Inl (KeyError ''hoursInfo''), log')
           | Some hs \<Rightarrow>
               (case history_page hs d of
                  Inl e \<Rightarrow> Some (Inl e, log')
                | Inr d' \<Rightarrow>
                    (case nextPageToken resp of
                       Some t \<Rightarrow> history_loop srv (Some t) d' log'
                     | None \<Rightarrow> Some (Inr d', log')))))"

text \<open>Lines 139-146: the \<^verbatim>\<open>while True\<close> loop of the forecast case.\<close>

partial_function (option) forecast_loop ::
    "server \<Rightarrow> string option \<Rightarrow> aqi_results \<Rightarrow> call_log
       \<Rightarrow> ((error + aqi_results) \<times> call_log) option" where
  "forecast_loop srv tok d log =
     (case requests_post srv log (forecast_request tok) of
        (Inl e, log') \<Rightarrow> Some (Inl e, log')
      | (Inr resp, log') \<Rightarrow>
          (case hourlyForecasts resp of
             None \<Rightarrow> Some (Inl (KeyError ''hourlyForecasts''), log')
           | Some hs \<Rightarrow>
               (case forecast_page hs d of
                  Inl e \<Rightarrow> Some (Inl e, log')
                | Inr d' \<Rightarrow>
                    (case nextPageToken resp of
                       Some t \<Rightarrow> forecast_loop srv (Some t) d' log'
                     | None \<Rightarrow> Some (Inr d', log')))))"

text \<open>Lines 119-126: the single call of the current-conditions case.\<close>

definition current_conditions ::
    "server \<Rightarrow> aqi_results \<Rightarrow> call_log \<Rightarrow> (error + aqi_results) \<times> call_log" where
  "current_conditions srv d log =
     (case requests_post srv log current_request of
        (Inl e, log') \<Rightarrow> (Inl e, log')
      | (Inr resp, log') \<Rightarrow>
          (case reading resp of
             Inl e \<Rightarrow> (Inl e, log')
           | Inr (k, v) \<Rightarrow> (Inr (dict_update k v d), log')))"

text \<open>Lines 100-146: the \<^verbatim>\<open>match\<close> statement, one pass of the \<^verbatim>\<open>for\<close> loop.\<close>

definition match_time ::
    "server \<Rightarrow> string \<Rightarrow> aqi_results \<Rightarrow> call_log \<Rightarrow> ((error + aqi_results) \<times> call_log) option" where
  "match_time srv time d log =
     (if time = ''history'' then history_loop srv None d log
      else if time = ''currentConditions'' then Some (current_conditions srv d log)
      else if time = ''forecast'' then forecast_loop srv None d log
      else Some (Inr d, log))"

text \<open>Line 98: the \<^verbatim>\<open>for\<close> loop over the endpoint names; an exception ends it.\<close>

fun for_time ::
    "server \<Rightarrow> string list \<Rightarrow> aqi_results \<Rightarrow> call_log \<Rightarrow> ((error + aqi_results) \<times> call_log) option" where
  "for_time srv [] d log = Some (Inr d, log)"
| "for_time srv (time # later) d log =
     (case match_time srv time d log of
        None \<Rightarrow> None
      | Some (Inl e, log') \<Rightarrow> Some (Inl e, log')
      | Some (Inr d', log') \<Rightarrow> for_time srv later d' log')"

text \<open>Lines 95-146: the dictionary starts empty and the list of line 98 is iterated.\<close>

definition aggregate :: "server \<Rightarrow> ((error + aqi_results) \<times> call_log) option" where
  "aggregate srv = for_time srv [''forecast'', ''currentConditions'', ''history''] [] []"


section \<open>Chart Series Splitter (visualization.py, handle\_callback, lines 154-165)\<close>

text \<open>\<^verbatim>\<open>aqi_results[dt]\<close>: the value of a key, or KeyError.\<close>

definition getitem :: "aqi_results \<Rightarrow> string \<Rightarrow> error + int" where
  "getitem d k = (case map_of d k of None \<Rightarrow> Inl (KeyError k) | Some v \<Rightarrow> Inr v)"

fun getitems :: "aqi_results \<Rightarrow> string list \<Rightarrow> error + int list" where
  "getitems d [] = Inr []"
| "getitems d (k # ks) =
     bindE (getitem d k) (\<lambda>v. bindE (getitems d ks) (\<lambda>vs. Inr (v # vs)))"

text \<open>
  Lines 154-159: the first trace. The keys are visited in the dictionary's order and
  compared as strings with the formatted current time, by Python's order on strings
  (lexicographic on code points).
\<close>

definition observed_trace :: "aqi_results \<Rightarrow> string \<Rightarrow> error + (string list \<times> int list)" where
  "observed_trace d now =
     (let x = filter (\<lambda>dt. dt \<le> now) (map fst d) in
      bindE (getitems d x) (\<lambda>y. Inr (x, y)))"

text \<open>Lines 160-165: the second trace.\<close>

definition forecast_trace :: "aqi_results \<Rightarrow> string \<Rightarrow> error + (string list \<times> int list)" where
  "forecast_trace d now =
     (let x = filter (\<lambda>dt. dt \<ge> now) (map fst d) in
      bindE (getitems d x) (\<lambda>y. Inr (x, y)))"

definition chart_traces ::
    "aqi_results \<Rightarrow> string \<Rightarrow> error + ((string list \<times> int list) \<times> (string list \<times> int list))" where
  "chart_traces d now =
     bindE (observed_trace d now) (\<lambda>obs.
     bindE (forecast_trace d now) (\<lambda>fc. Inr (obs, fc)))"


section \<open>Prompt Builder (utils.py, generate\_prompt, lines 232-256)\<close>

definition nl :: string where
  "nl = [CHR 0x0A]"

definition dquote :: string where
  "dquote = [CHR 0x22]"

text \<open>The literal parts of the f-string, between the seven replacement fields.\<close>

definition prompt_part0 :: string where
  "prompt_part0 =
     dquote @
     nl @
     ''    -------------------------------'' @
     nl @
     ''    Prompt Context'' @
     nl @
     nl @
     ''    You have been approached by a healthcare professional seeking consultation on how to mitigate the health risks or treat the health complications '' @
     nl @
     ''    associated with climate-related events, such as heat waves or forest fires. Your role as the AI specialist is to provide a consultation based on '' @
     nl @
     ''    the specific characteristics and surrounding environment of the patient, like their demographics, health conditions, medications, encounter history, AQI, '' @
     nl @
     ''    temperature, and apparent temperature.'' @
     nl @
     ''    -------------------------------'' @
     nl @
     ''    Patient Details'' @
     nl @
     nl @
     ''    Sex: ''"

definition prompt_part1 :: string where
  "prompt_part1 =
     nl @
     ''    Date of Birth: ''"

definition prompt_part2 :: string where
  "prompt_part2 =
     nl @
     ''    Health Conditions: ''"

definition prompt_part3 :: string where
  "prompt_part3 =
     nl @
     ''    Encounters: ''"

definition prompt_part4 :: string where
  "prompt_part4 =
     nl @
     ''    Medication Administrations: ''"

definition prompt_part5 :: string where
  "prompt_part5 =
     nl @
     nl @
     ''    Here is the past, present, and forecasted environmental data (in a tabular format) for the patient's primary address. Its columns include time, '' @
     nl @
     ''    air quality index measurements, temperature (Fahrenheit), and apparent temperature (Fahrenheit). Right now, The current datetime is ''"

definition prompt_part6 :: string where
  "prompt_part6 =
     ''.'' @
     nl @
     ''    '' @
     nl @
     ''    ''"

definition prompt_part7 :: string where
  "prompt_part7 =
     nl @
     nl @
     ''    -------------------------------'' @
     nl @
     ''    ''"

text \<open>
  A call with positional arguments binds them to the seven parameters, none of which has a
  default; a call with another number of arguments raises TypeError before the body runs.
  \<open>fmt\<close> is the conversion of a value to text that a replacement field applies.
\<close>

definition generate_prompt :: "('v \<Rightarrow> string) \<Rightarrow> 'v list \<Rightarrow> error + string" where
  "generate_prompt fmt args =
     (case args of
        [sex, date_of_birth, health_conditions, encounters, medication_administrations,
         current_dt, combined_environmental_data] \<Rightarrow>
          Inr (prompt_part0 @ fmt sex @ prompt_part1 @ fmt date_of_birth @
               prompt_part2 @ fmt health_conditions @ prompt_part3 @ fmt encounters @
               prompt_part4 @ fmt medication_administrations @ prompt_part5 @
               fmt current_dt @ prompt_part6 @ fmt combined_environmental_data @
               prompt_part7)
      | _ \<Rightarrow> Inl TypeError)"

text \<open>
  visualization.py, handle\_callback, lines 184-190: the call, with the values of its five
  argument expressions.
\<close>

definition callback_prompt :: "('v \<Rightarrow> string) \<Rightarrow> 'v \<Rightarrow> 'v \<Rightarrow> 'v \<Rightarrow> 'v \<Rightarrow> 'v \<Rightarrow> error + string" where
  "callback_prompt fmt patient_gender birth_isostring all_health_conditions now aqi_results =
     generate_prompt fmt
       [patient_gender, birth_isostring, all_health_conditions, now, aqi_results]"


section \<open>Resource pagination (utils.py, fetch\_all\_resources, lines 342-353)\<close>

text \<open>
  A bundle of the health-record server, restricted to the attributes the code reads. The
  resources are of any type \<open>'r\<close>.
\<close>

record 'r bundle_entry =
  resource :: "'r attr"

record bundle_link =
  link_relation :: "string attr"
  link_url :: "string attr"

record 'r fhir_bundle =
  entry :: "'r bundle_entry list attr"
  link :: "bundle_link list attr"

text \<open>
  The health-record server is a parameter: it answers the latest of the calls made so far,
  where \<open>None\<close> is the search of line 344 and \<open>Some url\<close> is
  \<^verbatim>\<open>Bundle.read_from(url, smart.server)\<close>.
\<close>

type_synonym fhir_log = "string option list"
type_synonym 'r fhir_server = "fhir_log \<Rightarrow> error + 'r fhir_bundle"

text \<open>Line 348: the generator \<^verbatim>\<open>entry.resource for entry in next_url.entry\<close>.\<close>

fun entry_resources :: "'r bundle_entry list \<Rightarrow> error + 'r option list" where
  "entry_resources [] = Inr []"
| "entry_resources (e # es) =
     bindE (getattr (resource e)) (\<lambda>r. bindE (entry_resources es) (\<lambda>rs. Inr (r # rs)))"

text \<open>
  Lines 347-348: the resources one bundle adds; \<^verbatim>\<open>None\<close> and the empty list are false
  and add nothing.
\<close>

definition bundle_resources :: "'r fhir_bundle \<Rightarrow> error + 'r option list" where
  "bundle_resources b =
     bindE (getattr (entry b)) (\<lambda>es.
       case es of
         None \<Rightarrow> Inr []
       | Some [] \<Rightarrow> Inr []
       | Some (e # rest) \<Rightarrow> entry_resources (e # rest))"

text \<open>
  Line 350: the URL of the first link whose relation is \<open>next\<close>, or \<^verbatim>\<open>None\<close> when
  there is no such link.
\<close>

fun first_next :: "bundle_link list \<Rightarrow> error + string option" where
  "first_next [] = Inr None"
| "first_next (l # ls) =
     bindE (getattr (link_relation l)) (\<lambda>r.
       if r = Some ''next'' then getattr (link_url l) else first_next ls)"

definition next_link :: "'r fhir_bundle \<Rightarrow> error + string option" where
  "next_link b =
     bindE (getattr (link b)) (\<lambda>ls.
       case ls of
         None \<Rightarrow> Inl TypeError
       | Some links \<Rightarrow> first_next links)"

text \<open>
  Lines 346-351: the \<^verbatim>\<open>while next_url\<close> loop; \<open>next_url\<close> is a bundle, which is true,
  or \<^verbatim>\<open>None\<close>. The loop has no bound, so the function is partial.
\<close>

partial_function (option) fetch_loop ::
    "'r fhir_server \<Rightarrow> 'r fhir_bundle option \<Rightarrow> 'r option list \<Rightarrow> fhir_log
       \<Rightarrow> ((error + 'r option list) \<times> fhir_log) option" where
  "fetch_loop srv next_url resources log =
     (case next_url of
        None \<Rightarrow> Some (Inr resources, log)
      | Some b \<Rightarrow>
          (case bundle_resources b of
             Inl e \<Rightarrow> Some (Inl e, log)
           | Inr rs \<Rightarrow>
               (case next_link b of
                  Inl e \<Rightarrow> Some (Inl e, log)
                | Inr nxt \<Rightarrow>
                    if truthy_str nxt then
                      (case srv (log @ [nxt]) of
                         Inl e \<Rightarrow> Some (Inl e, log @ [nxt])
                       | Inr b' \<Rightarrow> fetch_loop srv (Some b') (resources @ rs) (log @ [nxt]))
                    else fetch_loop srv None (resources @ rs) log)))"

text \<open>Lines 342-353.\<close>

definition fetch_all_resources ::
    "'r fhir_server \<Rightarrow> ((error + 'r option list) \<times> fhir_log) option" where
  "fetch_all_resources srv =
     (case srv [None] of
        Inl e \<Rightarrow> Some (Inl e, [None])
      | Inr b \<Rightarrow> fetch_loop srv (Some b) [] [None])"


section \<open>Vocabulary of the properties\<close>

text \<open>
  The definitions of this section are not code of the program: they name what the
  properties below speak about.
\<close>

text \<open>Writing a list of readings into the dictionary, in the order of the list.\<close>

definition apply_readings :: "(string \<times> int) list \<Rightarrow> aqi_results \<Rightarrow> aqi_results" where
  "apply_readings rs d = fold (\<lambda>(k, v). dict_update k v) rs d"

text \<open>The readings of a list of entries: those entries that have all four parts.\<close>

fun readings :: "'a hour_info_scheme list \<Rightarrow> (string \<times> int) list" where
  "readings [] = []"
| "readings (h # hs) = (case reading h of Inr kv \<Rightarrow> kv # readings hs | Inl e \<Rightarrow> readings hs)"

text \<open>An entry with a time stamp, a non-empty list of indexes and a value in the first.\<close>

definition has_reading :: "'a hour_info_scheme \<Rightarrow> bool" where
  "has_reading h =
     (case (dateTime h, indexes h) of
        (Some t, Some (i # rest)) \<Rightarrow> aqi i \<noteq> None
      | _ \<Rightarrow> False)"

text \<open>The readings that the body of one endpoint carries.\<close>

definition page_readings :: "string \<Rightarrow> response \<Rightarrow> (string \<times> int) list" where
  "page_readings time resp =
     (if time = ''history'' then (case hoursInfo resp of Some hs \<Rightarrow> readings hs | None \<Rightarrow> [])
      else if time = ''forecast'' then
        (case hourlyForecasts resp of Some hs \<Rightarrow> readings hs | None \<Rightarrow> [])
      else if time = ''currentConditions'' then readings [resp]
      else [])"

text \<open>
  A body on which the code of an endpoint raises: the list of entries is missing, an entry
  of a forecast page or the current-conditions body has no reading, or an entry of a
  history page has a time stamp and a list of indexes but no reading.
\<close>

definition page_fails :: "string \<Rightarrow> response \<Rightarrow> bool" where
  "page_fails time resp =
     (if time = ''history'' then
        (case hoursInfo resp of
           None \<Rightarrow> True
         | Some hs \<Rightarrow>
             list_ex (\<lambda>h. dateTime h \<noteq> None \<and> indexes h \<noteq> None \<and> \<not> has_reading h) hs)
      else if time = ''forecast'' then
        (case hourlyForecasts resp of
           None \<Rightarrow> True
         | Some hs \<Rightarrow> list_ex (\<lambda>h. \<not> has_reading h) hs)
      else if time = ''currentConditions'' then \<not> has_reading resp
      else False)"

text \<open>A call fails when the request or the decoding raises, or the body is one that fails.\<close>

definition call_fails :: "request \<Rightarrow> error + response \<Rightarrow> bool" where
  "call_fails req res = (case res of Inl e \<Rightarrow> True | Inr resp \<Rightarrow> page_fails (url_time req) resp)"

definition emitted :: "request \<Rightarrow> error + response \<Rightarrow> (string \<times> int) list" where
  "emitted req res = (case res of Inl e \<Rightarrow> [] | Inr resp \<Rightarrow> page_readings (url_time req) resp)"

text \<open>
  For requests \<open>qs\<close> made after the requests \<open>log\<close>: the readings their answers carry, in
  the order of the calls, and whether one of the calls fails.
\<close>

fun emitted_after :: "server \<Rightarrow> call_log \<Rightarrow> request list \<Rightarrow> (string \<times> int) list" where
  "emitted_after srv log [] = []"
| "emitted_after srv log (q # qs) =
     emitted q (srv (log @ [q])) @ emitted_after srv (log @ [q]) qs"

fun some_call_fails :: "server \<Rightarrow> call_log \<Rightarrow> request list \<Rightarrow> bool" where
  "some_call_fails srv log [] = False"
| "some_call_fails srv log (q # qs) =
     (call_fails q (srv (log @ [q])) \<or> some_call_fails srv (log @ [q]) qs)"

text \<open>The values written for one time stamp by a list of readings, in order.\<close>

definition values_for :: "string \<Rightarrow> (string \<times> int) list \<Rightarrow> int list" where
  "values_for t rs = map snd (filter (\<lambda>kv. fst kv = t) rs)"

text \<open>
  A sequence of pages in which only the last page has no continuation token, the requests
  a pagination loop makes for it (each carries the token of the page before), and a
  service that answers these requests, made after the requests \<open>log\<close>, with these pages.
\<close>

fun last_page_only :: "response list \<Rightarrow> bool" where
  "last_page_only [] = False"
| "last_page_only [p] = (nextPageToken p = None)"
| "last_page_only (p # q # ps) = (nextPageToken p \<noteq> None \<and> last_page_only (q # ps))"

fun page_requests :: "(string option \<Rightarrow> request) \<Rightarrow> string option \<Rightarrow> response list \<Rightarrow> request list" where
  "page_requests mk tok [] = []"
| "page_requests mk tok (p # ps) = mk tok # page_requests mk (nextPageToken p) ps"

fun serves :: "server \<Rightarrow> call_log \<Rightarrow> request list \<Rightarrow> response list \<Rightarrow> bool" where
  "serves srv log [] [] = True"
| "serves srv log (q # qs) (p # ps) = (srv (log @ [q]) = Inr p \<and> serves srv (log @ [q]) qs ps)"
| "serves srv log qs ps = False"


text \<open>
  For bundles: the resources of a bundle the code reads without an exception, and a first
  bundle \<open>b\<close> followed by the bundles \<open>bs\<close>, each served at the next link of the one
  before, the last one without a next link; the calls that follow these links.
\<close>

definition resources_of :: "'r fhir_bundle \<Rightarrow> 'r option list" where
  "resources_of b = (case bundle_resources b of Inr rs \<Rightarrow> rs | Inl e \<Rightarrow> [])"

fun follows :: "'r fhir_server \<Rightarrow> fhir_log \<Rightarrow> 'r fhir_bundle \<Rightarrow> 'r fhir_bundle list \<Rightarrow> bool" where
  "follows srv log b [] =
     (case next_link b of Inr nxt \<Rightarrow> \<not> truthy_str nxt | Inl e \<Rightarrow> False)"
| "follows srv log b (b' # bs) =
     (case next_link b of
        Inr nxt \<Rightarrow> truthy_str nxt \<and> srv (log @ [nxt]) = Inr b' \<and> follows srv (log @ [nxt]) b' bs
      | Inl e \<Rightarrow> False)"

fun link_calls :: "'r fhir_bundle \<Rightarrow> 'r fhir_bundle list \<Rightarrow> fhir_log" where
  "link_calls b [] = []"
| "link_calls b (b' # bs) =
     (case next_link b of Inr nxt \<Rightarrow> nxt | Inl e \<Rightarrow> None) # link_calls b' bs"

text \<open>The readings of a sequence of pages of one endpoint, in order.\<close>

definition pages_readings :: "string \<Rightarrow> response list \<Rightarrow> (string \<times> int) list" where
  "pages_readings time ps = concat (map (page_readings time) ps)"

text \<open>What a finished run of calls made after \<open>log\<close>, started with the dictionary \<open>d\<close>, satisfies.\<close>

definition run_of :: "server \<Rightarrow> aqi_results \<Rightarrow> call_log \<Rightarrow> request list
    \<Rightarrow> (error + aqi_results) \<times> call_log \<Rightarrow> bool" where
  "run_of srv d log ext y =
     (snd y = log @ ext
      \<and> (isl (fst y) \<longleftrightarrow> some_call_fails srv log ext)
      \<and> (\<forall>d'. fst y = Inr d' \<longrightarrow> d' = apply_readings (emitted_after srv log ext) d))"


section \<open>Inputs used in the concrete evaluations\<close>

text \<open>A name entry with the \<open>official\<close> use code and no precomposed text.\<close>

definition official_name :: human_name where
  "official_name =
     \<lparr>name_use = Val ''official'', name_text = PyNone, given = Val [''Jane'', ''Q''],
      family = Val ''Doe''\<rparr>"

text \<open>A name entry whose use code is \<^verbatim>\<open>None\<close>.\<close>

definition no_use_name :: human_name where
  "no_use_name =
     \<lparr>name_use = PyNone, name_text = Val ''Jane Doe'', given = Val [''Jane''],
      family = Val ''Doe''\<rparr>"

text \<open>Two name entries, neither with the \<open>official\<close> use code.\<close>

definition usual_name :: human_name where
  "usual_name =
     \<lparr>name_use = Val ''usual'', name_text = Val ''Jane Doe'', given = Val [''Jane''],
      family = Val ''Doe''\<rparr>"

definition nickname :: human_name where
  "nickname =
     \<lparr>name_use = Val ''nickname'', name_text = Val ''JD'', given = Val [''J''],
      family = Val ''D''\<rparr>"

definition one_address :: postal_address where
  "one_address =
     \<lparr>addr_text = PyNone, line = Val [''123 Main St''], city = Val ''Springfield'',
      district = PyNone, state = Val ''IL'', postalCode = PyNone, country = PyNone\<rparr>"

definition patient_with :: "human_name list \<Rightarrow> postal_address list \<Rightarrow> patient" where
  "patient_with names addrs =
     \<lparr>name = Val names, gender = Val ''female'',
      birthDate = Val \<lparr>isostring = Val ''1980-02-29''\<rparr>, address = Val addrs\<rparr>"

text \<open>JSON bodies with the keys one endpoint sends, and an hourly entry with a reading.\<close>

definition hour :: "string \<Rightarrow> int \<Rightarrow> hour_info" where
  "hour t v = \<lparr>dateTime = Some t, indexes = Some [\<lparr>aqi = Some v\<rparr>]\<rparr>"

definition forecast_body :: "hour_info list \<Rightarrow> string option \<Rightarrow> response" where
  "forecast_body hs tok =
     \<lparr>dateTime = None, indexes = None, hoursInfo = None, hourlyForecasts = Some hs,
      nextPageToken = tok\<rparr>"

definition history_body :: "hour_info list \<Rightarrow> string option \<Rightarrow> response" where
  "history_body hs tok =
     \<lparr>dateTime = None, indexes = None, hoursInfo = Some hs, hourlyForecasts = None,
      nextPageToken = tok\<rparr>"

definition current_body :: "string \<Rightarrow> int \<Rightarrow> response" where
  "current_body t v =
     \<lparr>dateTime = Some t, indexes = Some [\<lparr>aqi = Some v\<rparr>], hoursInfo = None,
      hourlyForecasts = None, nextPageToken = None\<rparr>"

text \<open>A service that answers each endpoint with one fixed body.\<close>

definition endpoint_service :: "response \<Rightarrow> response \<Rightarrow> response \<Rightarrow> server" where
  "endpoint_service f c h log =
     (if log = [] then Inl ConnectionError
      else if url_time (last log) = ''forecast'' then Inr f
      else if url_time (last log) = ''currentConditions'' then Inr c
      else Inr h)"

text \<open>
  A run at noon: two forecast hours, the current hour and two history hours, each page in
  ascending order.
\<close>

definition noon :: string where
  "noon = ''2024-06-01T12:00:00Z''"

definition noon_service :: server where
  "noon_service =
     endpoint_service
       (forecast_body [hour ''2024-06-01T13:00:00Z'' 40, hour ''2024-06-01T14:00:00Z'' 45] None)
       (current_body ''2024-06-01T12:00:00Z'' 35)
       (history_body [hour ''2024-06-01T10:00:00Z'' 28, hour ''2024-06-01T11:00:00Z'' 30] None)"

text \<open>A run in which the three endpoints report the same time stamp with different values.\<close>

definition collision_service :: server where
  "collision_service =
     endpoint_service
       (forecast_body [hour ''2024-06-01T12:00:00Z'' 41] None)
       (current_body ''2024-06-01T12:00:00Z'' 35)
       (history_body [hour ''2024-06-01T12:00:00Z'' 30] None)"

text \<open>A run whose history page has an entry without the key \<open>indexes\<close>.\<close>

definition gap_service :: server where
  "gap_service =
     endpoint_service
       (forecast_body [hour ''2024-06-01T13:00:00Z'' 40] None)
       (current_body ''2024-06-01T12:00:00Z'' 35)
       (history_body [hour ''2024-06-01T10:00:00Z'' 28,
                      \<lparr>dateTime = Some ''2024-06-01T11:00:00Z'', indexes = None\<rparr>] None)"

text \<open>Three history pages, linked by the tokens \<open>p2\<close> and \<open>p3\<close>, and a service for them.\<close>

definition three_pages :: "response list" where
  "three_pages =
     [history_body [hour ''2024-06-01T09:00:00Z'' 25] (Some ''p2''),
      history_body [hour ''2024-06-01T10:00:00Z'' 28] (Some ''p3''),
      history_body [hour ''2024-06-01T11:00:00Z'' 30] None]"

definition three_forecast_pages :: "response list" where
  "three_forecast_pages =
     [forecast_body [hour ''2024-06-01T13:00:00Z'' 40] (Some ''p2''),
      forecast_body [hour ''2024-06-01T14:00:00Z'' 45] (Some ''p3''),
      forecast_body [hour ''2024-06-01T15:00:00Z'' 50] None]"

definition paged_service :: "response list \<Rightarrow> server" where
  "paged_service pages log =
     (if log = [] then Inl ConnectionError
      else
        (case pageToken (last log) of
           None \<Rightarrow> Inr (pages ! 0)
         | Some t \<Rightarrow>
             if t = ''p2'' then Inr (pages ! 1)
             else if t = ''p3'' then Inr (pages ! 2)
             else Inl ConnectionError))"

text \<open>A run whose forecast page has an entry without the key \<open>dateTime\<close>.\<close>

definition broken_service :: server where
  "broken_service =
     endpoint_service
       (forecast_body [\<lparr>dateTime = None, indexes = Some [\<lparr>aqi = Some 40\<rparr>]\<rparr>] None)
       (current_body ''2024-06-01T12:00:00Z'' 35)
       (history_body [hour ''2024-06-01T11:00:00Z'' 30] None)"

text \<open>A service that cannot be reached: every request raises.\<close>

definition down_service :: server where
  "down_service log = Inl ConnectionError"

text \<open>
  Three bundles of numbered resources, linked by next links, and a health-record server
  for them.
\<close>

definition bundle_page :: "nat list \<Rightarrow> string option \<Rightarrow> nat fhir_bundle" where
  "bundle_page rs nxt =
     \<lparr>entry = Val (map (\<lambda>r. \<lparr>resource = Val r\<rparr>) rs),
      link = Val (\<lparr>link_relation = Val ''self'', link_url = Val ''https://fhir.example/Condition''\<rparr>
                  # (case nxt of
                       None \<Rightarrow> []
                     | Some u \<Rightarrow> [\<lparr>link_relation = Val ''next'', link_url = Val u\<rparr>]))\<rparr>"

definition three_bundles :: "nat fhir_bundle list" where
  "three_bundles =
     [bundle_page [1, 2] (Some ''https://fhir.example/page2''),
      bundle_page [3] (Some ''https://fhir.example/page3''),
      bundle_page [4, 5] None]"

definition bundle_service :: "nat fhir_server" where
  "bundle_service log =
     (if log = [] then Inl ConnectionError
      else if last log = None then Inr (three_bundles ! 0)
      else if last log = Some ''https://fhir.example/page2'' then Inr (three_bundles ! 1)
      else if last log = Some ''https://fhir.example/page3'' then Inr (three_bundles ! 2)
      else Inl ConnectionError)"

text \<open>The requests of a run without further pages.\<close>

definition three_calls :: call_log where
  "three_calls = [forecast_request None, current_request, history_request None]"


section \<open>Properties\<close>

subsection \<open>Sequencing of exceptions\<close>

lemma bindE_Inr [simp]: "bindE (Inr v) f = f v"
  by (simp add: bindE_def)

lemma bindE_Inl [simp]: "bindE (Inl e) f = Inl e"
  by (simp add: bindE_def)

lemma bindE_Inr_iff: "bindE m f = Inr r \<longleftrightarrow> (\<exists>v. m = Inr v \<and> f v = Inr r)"
  by (cases m) simp_all

subsection \<open>Condition Summarizer\<close>

text \<open>
  C5, as stated, at a condition that carries both a status text and a coded status: the
  claim makes the clinical status the text \<open>In remission\<close>; the second \<^verbatim>\<open>if\<close> of line 60
  runs after the first and the status is the code \<open>active\<close>.
\<close>

theorem C5_counterexample:
  "condition_details
     \<lparr>code = Val \<lparr>cc_text = Val ''Asthma'', cc_coding = PyNone\<rparr>,
      clinicalStatus =
        Val \<lparr>cc_text = Val ''In remission'',
             cc_coding = Val [\<lparr>display = Val ''Active'', coding_code = Val ''active''\<rparr>]\<rparr>,
      verificationStatus = PyNone\<rparr>
   = Inr \<lparr>condition_name = Some ''Asthma'', clinical_status = Some ''active'',
          verification_status = Some ''Unknown''\<rparr>
   \<and> Some ''active'' \<noteq> Some ''In remission''"
  by (simp add: condition_details_def condition_name_of_def status_of_def first_coding_code_def
        hasattr_def getattr_def)

text \<open>
  C5, amended: when a status element carries both a text and a coded status, the code of
  its first coded entry is the resulting status (coded overrides text); when the status
  element is missing, is \<^verbatim>\<open>None\<close>, or has neither a text nor a coding attribute, the
  status is \<open>Unknown\<close>. The statement is about \<open>status_of\<close>, which lines 56-61 apply to
  \<^verbatim>\<open>clinicalStatus\<close>.
\<close>

theorem C5_coded_status_overrides_text:
  "(cc_text cc = Val t \<and> cc_coding cc = Val (c # cs) \<and> coding_code c = Val k
      \<longrightarrow> status_of (Val cc) = Inr (Some k))
   \<and> (st = Absent \<or> st = PyNone
        \<or> (\<exists>cc'. st = Val cc' \<and> cc_text cc' = Absent \<and> cc_coding cc' = Absent)
      \<longrightarrow> status_of st = Inr (Some ''Unknown''))"
  by (auto simp add: status_of_def first_coding_code_def hasattr_def getattr_def)

theorem C5_coded_status_overrides_text_witness:
  "status_of (Val \<lparr>cc_text = Val ''In remission'',
                   cc_coding = Val [\<lparr>display = Val ''Active'', coding_code = Val ''active''\<rparr>]\<rparr>)
     = Inr (Some ''active'')
   \<and> status_of (Val \<lparr>cc_text = Absent, cc_coding = Absent\<rparr>) = Inr (Some ''Unknown'')"
  using C5_coded_status_overrides_text
          [of "\<lparr>cc_text = Val ''In remission'',
                cc_coding = Val [\<lparr>display = Val ''Active'', coding_code = Val ''active''\<rparr>]\<rparr>"
              "''In remission''" "\<lparr>display = Val ''Active'', coding_code = Val ''active''\<rparr>" "[]"
              "''active''" "Val \<lparr>cc_text = Absent, cc_coding = Absent\<rparr>"]
  by simp





subsection \<open>Demographics Extractor\<close>

lemma address_step_many:
  "address p = Val addrs \<Longrightarrow> 1 < length addrs \<Longrightarrow>
     address_step p = Inl (Exception multiple_addresses_message)"
  by (simp add: address_step_def getattr_def)

lemma address_step_empty: "address p = Val [] \<Longrightarrow> address_step p = Inr None"
  by (simp add: address_step_def getattr_def)

lemma address_step_Some:
  "address_step p = Inr (Some s) \<Longrightarrow> \<exists>a. address p = Val [a] \<and> address_string a = Inr s"
  by (cases "address p")
     (auto simp add: address_step_def getattr_def bindE_Inr_iff
           split: if_splits list.splits)

lemma demographics_Inr:
  "get_patient_demographics p = Inr (nm, sex, b, s) \<Longrightarrow> address_step p = Inr (Some s)"
  by (auto simp add: get_patient_demographics_def bindE_Inr_iff split: option.splits)

lemma demographics_fails:
  "address_step p = Inl e \<or> address_step p = Inr None \<Longrightarrow> isl (get_patient_demographics p)"
  by (cases "name_step p"; cases "sex_step p"; cases "birthday_step p")
     (auto simp add: get_patient_demographics_def)

text \<open>
  C8, as stated, at two patients with two addresses, one with an empty list of names and
  one whose only name entry has the use code \<^verbatim>\<open>None\<close>: the claim makes both raise the
  multiple-addresses exception. The name is resolved before the addresses are counted
  (lines 264-274 before line 292), and the function raises IndexError at
  \<^verbatim>\<open>patient.name[0]\<close> for the first and TypeError at \<^verbatim>\<open>"official" in name.use\<close> for
  the second.
\<close>

theorem C8_counterexample:
  "get_patient_demographics (patient_with [] [one_address, one_address]) = Inl IndexError
   \<and> get_patient_demographics (patient_with [no_use_name] [one_address, one_address])
     = Inl TypeError
   \<and> IndexError \<noteq> Exception multiple_addresses_message
   \<and> TypeError \<noteq> Exception multiple_addresses_message"
  by (simp add: get_patient_demographics_def name_step_def patient_with_def no_use_name_def
        getattr_def)

text \<open>
  C8, amended: for a patient with more than one address the function fails, with the exception
  \<open>Multiple addresses detected!\<close> whenever the name, sex and birth date steps before the
  address step did not raise, and the callback raises PreventUpdate; for a patient with an
  empty address list the function fails (line 340 reads a variable that was never
  assigned) and the callback raises PreventUpdate with the no-address message before it
  calls the function; whenever the function returns, the patient has exactly one address
  and the address returned is the string built from it.
\<close>

theorem C8_address_count:
  "(\<forall>addrs. address p = Val addrs \<and> 1 < length addrs \<longrightarrow>
        isl (get_patient_demographics p)
      \<and> (\<forall>nm sex b. name_step p = Inr nm \<and> sex_step p = Inr sex \<and> birthday_step p = Inr b \<longrightarrow>
            get_patient_demographics p = Inl (Exception multiple_addresses_message))
      \<and> callback_demographics p = Inl (PreventUpdate demographics_failed_message))
   \<and> (address p = Val [] \<longrightarrow>
        isl (get_patient_demographics p)
      \<and> callback_demographics p = Inl (PreventUpdate no_address_message))
   \<and> (\<forall>nm sex b s. get_patient_demographics p = Inr (nm, sex, b, s) \<longrightarrow>
        (\<exists>a. address p = Val [a] \<and> address_string a = Inr s))"
proof (intro conjI allI impI)
  fix addrs
  assume a: "address p = Val addrs \<and> 1 < length addrs"
  then have st: "address_step p = Inl (Exception multiple_addresses_message)"
    by (simp add: address_step_many)
  then show f: "isl (get_patient_demographics p)"
    by (simp add: demographics_fails)
  from a f show "callback_demographics p = Inl (PreventUpdate demographics_failed_message)"
    by (cases "get_patient_demographics p")
       (auto simp add: callback_demographics_def hasattr_def)
  fix nm sex b
  assume "name_step p = Inr nm \<and> sex_step p = Inr sex \<and> birthday_step p = Inr b"
  with st show "get_patient_demographics p = Inl (Exception multiple_addresses_message)"
    by (simp add: get_patient_demographics_def)
next
  assume a: "address p = Val []"
  then show "isl (get_patient_demographics p)"
    by (simp add: demographics_fails address_step_empty)
  from a show "callback_demographics p = Inl (PreventUpdate no_address_message)"
    by (simp add: callback_demographics_def hasattr_def)
next
  fix nm sex b s
  assume "get_patient_demographics p = Inr (nm, sex, b, s)"
  then show "\<exists>a. address p = Val [a] \<and> address_string a = Inr s"
    by (simp add: demographics_Inr address_step_Some)
qed

lemma official_patient_steps:
  "name_step (patient_with [official_name] addrs) = Inr (NameStr ''Jane Q Doe'')"
  "sex_step (patient_with [official_name] addrs) = Inr ''female''"
  "birthday_step (patient_with [official_name] addrs) = Inr (Some ''1980-02-29'')"
  by (simp_all add: name_step_def sex_step_def birthday_step_def patient_with_def
        official_name_def full_name_def getattr_def truthy_str_def sublist_code)

lemma one_address_string: "address_string one_address = Inr ''123 Main St, Springfield, IL''"
  by (simp add: address_string_def one_address_def getattr_def hasattr_def truthy_str_def)

lemma one_address_step:
  "address_step (patient_with names [one_address]) = Inr (Some ''123 Main St, Springfield, IL'')"
  by (simp add: address_step_def getattr_def one_address_string patient_with_def)

lemma one_address_patient:
  "get_patient_demographics (patient_with [official_name] [one_address])
     = Inr (NameStr ''Jane Q Doe'', ''female'', Some ''1980-02-29'',
            ''123 Main St, Springfield, IL'')"
  by (simp add: get_patient_demographics_def official_patient_steps one_address_step)

theorem C8_address_count_witness:
  "get_patient_demographics (patient_with [official_name] [one_address, one_address])
     = Inl (Exception multiple_addresses_message)
   \<and> callback_demographics (patient_with [official_name] [one_address, one_address])
     = Inl (PreventUpdate demographics_failed_message)
   \<and> isl (get_patient_demographics (patient_with [official_name] []))
   \<and> callback_demographics (patient_with [official_name] [])
     = Inl (PreventUpdate no_address_message)
   \<and> get_patient_demographics (patient_with [official_name] [one_address])
     = Inr (NameStr ''Jane Q Doe'', ''female'', Some ''1980-02-29'',
            ''123 Main St, Springfield, IL'')
   \<and> (\<exists>a. address (patient_with [official_name] [one_address]) = Val [a]
          \<and> address_string a = Inr ''123 Main St, Springfield, IL'')"
proof -
  have two: "address (patient_with [official_name] [one_address, one_address])
               = Val [one_address, one_address]
             \<and> 1 < length [one_address, one_address]"
    by (simp add: patient_with_def)
  have none: "address (patient_with [official_name] []) = Val []"
    by (simp add: patient_with_def)
  have many: "get_patient_demographics (patient_with [official_name] [one_address, one_address])
                = Inl (Exception multiple_addresses_message)
              \<and> callback_demographics (patient_with [official_name] [one_address, one_address])
                = Inl (PreventUpdate demographics_failed_message)"
    using C8_address_count [of "patient_with [official_name] [one_address, one_address]"]
          two official_patient_steps
    by simp
  have zero: "isl (get_patient_demographics (patient_with [official_name] []))
              \<and> callback_demographics (patient_with [official_name] [])
                = Inl (PreventUpdate no_address_message)"
    using C8_address_count [of "patient_with [official_name] []"] none
    by simp
  have one: "\<exists>a. address (patient_with [official_name] [one_address]) = Val [a]
                \<and> address_string a = Inr ''123 Main St, Springfield, IL''"
    using C8_address_count [of "patient_with [official_name] [one_address]"]
          one_address_patient
    by simp
  from many zero one one_address_patient show ?thesis
    by simp
qed

lemma official_loop_found:
  assumes "\<forall>x \<in> set pre. \<exists>u. name_use x = Val u \<and> \<not> sublist ''official'' u"
    and "name_use n = Val u" "sublist ''official'' u"
  shows "official_loop (pre @ n # post) nm = bindE (full_name n) (\<lambda>s. Inr (NameStr s))"
  using assms by (induction pre arbitrary: nm) (auto simp add: getattr_def)

text \<open>
  C4 at a patient whose two name entries have the use codes \<open>usual\<close> and \<open>nickname\<close>: the
  claim makes the name the text of the first entry, \<open>Jane Doe\<close>. The loop variable of line
  265 is \<^verbatim>\<open>name\<close> itself, so after the loop it holds the last entry, the test of line
  272 is false, and the function returns that entry, an object and not a string.
\<close>

theorem C4_last_entry_returned:
  "get_patient_demographics (patient_with [usual_name, nickname] [one_address])
     = Inr (NameEntry nickname, ''female'', Some ''1980-02-29'', ''123 Main St, Springfield, IL'')
   \<and> NameEntry nickname \<noteq> NameStr ''Jane Doe''"
proof -
  have "name_step (patient_with [usual_name, nickname] [one_address]) = Inr (NameEntry nickname)"
    by (simp add: name_step_def patient_with_def usual_name_def nickname_def getattr_def
          sublist_code)
  moreover have "sex_step (patient_with [usual_name, nickname] [one_address]) = Inr ''female''"
    by (simp add: sex_step_def patient_with_def getattr_def truthy_str_def)
  moreover have "birthday_step (patient_with [usual_name, nickname] [one_address])
                   = Inr (Some ''1980-02-29'')"
    by (simp add: birthday_step_def patient_with_def getattr_def)
  ultimately show ?thesis
    by (simp add: get_patient_demographics_def one_address_step)
qed

subsection \<open>The dictionary of readings\<close>

lemma map_of_dict_update: "map_of (dict_update k v d) = (map_of d)(k \<mapsto> v)"
  by (induction d) (auto simp add: fun_eq_iff)

lemma keys_dict_update: "fst ` set (dict_update k v d) = insert k (fst ` set d)"
  by (simp add: dom_map_of_conv_image_fst [symmetric] map_of_dict_update)

lemma apply_readings_Nil [simp]: "apply_readings [] d = d"
  by (simp add: apply_readings_def)

lemma apply_readings_Cons [simp]:
  "apply_readings ((k, v) # rs) d = apply_readings rs (dict_update k v d)"
  by (simp add: apply_readings_def)

lemma apply_readings_append:
  "apply_readings (rs @ rs') d = apply_readings rs' (apply_readings rs d)"
  by (simp add: apply_readings_def)

lemma map_of_apply_readings:
  "map_of (apply_readings rs d) t =
     (if values_for t rs = [] then map_of d t else Some (last (values_for t rs)))"
proof (induction rs arbitrary: d)
  case Nil
  then show ?case by (simp add: values_for_def)
next
  case (Cons kv rs)
  obtain k v where kv: "kv = (k, v)" by (cases kv)
  show ?case
    by (simp add: kv Cons.IH map_of_dict_update values_for_def)
qed

lemma keys_apply_readings: "fst ` set (apply_readings rs d) = fst ` set rs \<union> fst ` set d"
proof (induction rs arbitrary: d)
  case Nil
  then show ?case by simp
next
  case (Cons kv rs)
  obtain k v where kv: "kv = (k, v)" by (cases kv)
  show ?case
    by (auto simp add: kv Cons.IH keys_dict_update)
qed

subsection \<open>Pages and calls\<close>

lemma reading_has:
  "has_reading h \<Longrightarrow> \<exists>kv. reading h = Inr kv"
  by (auto simp add: has_reading_def reading_def split: option.splits list.splits)

lemma reading_has_not: "\<not> has_reading h \<Longrightarrow> isl (reading h)"
  by (auto simp add: has_reading_def reading_def split: option.splits list.splits)

lemma reading_missing: "dateTime h = None \<or> indexes h = None \<Longrightarrow> isl (reading h)"
  by (auto simp add: reading_def split: option.splits)

lemma history_page_ok:
  "\<not> list_ex (\<lambda>h. dateTime h \<noteq> None \<and> indexes h \<noteq> None \<and> \<not> has_reading h) hs \<Longrightarrow>
     history_page hs d = Inr (apply_readings (readings hs) d)"
proof (induction hs arbitrary: d)
  case Nil
  then show ?case by simp
next
  case (Cons h hs)
  show ?case
  proof (cases "dateTime h \<noteq> None \<and> indexes h \<noteq> None")
    case True
    with Cons.prems have "has_reading h" by simp
    then obtain k v where "reading h = Inr (k, v)" using reading_has by fastforce
    with True Cons show ?thesis by simp
  next
    case False
    then have "isl (reading h)" using reading_missing [of h] by auto
    then obtain e where "reading h = Inl e" by (cases "reading h") simp_all
    with False Cons show ?thesis by simp
  qed
qed

lemma history_page_fails:
  "list_ex (\<lambda>h. dateTime h \<noteq> None \<and> indexes h \<noteq> None \<and> \<not> has_reading h) hs \<Longrightarrow>
     isl (history_page hs d)"
proof (induction hs arbitrary: d)
  case Nil
  then show ?case by simp
next
  case (Cons h hs)
  show ?case
  proof (cases "dateTime h \<noteq> None \<and> indexes h \<noteq> None")
    case True
    show ?thesis
    proof (cases "reading h")
      case (Inl e)
      with True show ?thesis by simp
    next
      case (Inr kv)
      then have "has_reading h" using reading_has_not by fastforce
      with Cons Inr True show ?thesis by (cases kv) simp
    qed
  next
    case False
    with Cons show ?thesis by auto
  qed
qed

lemma forecast_page_ok:
  "\<not> list_ex (\<lambda>h. \<not> has_reading h) hs \<Longrightarrow>
     forecast_page hs d = Inr (apply_readings (readings hs) d)"
proof (induction hs arbitrary: d)
  case Nil
  then show ?case by simp
next
  case (Cons h hs)
  then have "has_reading h" by simp
  then obtain k v where "reading h = Inr (k, v)" using reading_has by fastforce
  with Cons show ?case by simp
qed

lemma forecast_page_fails:
  "list_ex (\<lambda>h. \<not> has_reading h) hs \<Longrightarrow> isl (forecast_page hs d)"
proof (induction hs arbitrary: d)
  case Nil
  then show ?case by simp
next
  case (Cons h hs)
  show ?case
  proof (cases "reading h")
    case (Inl e)
    then show ?thesis by simp
  next
    case (Inr kv)
    then have "has_reading h" using reading_has_not by fastforce
    with Cons Inr show ?thesis by (cases kv) simp
  qed
qed


lemma history_page_Inr:
  "history_page hs d = Inr d' \<Longrightarrow>
     \<not> list_ex (\<lambda>h. dateTime h \<noteq> None \<and> indexes h \<noteq> None \<and> \<not> has_reading h) hs
     \<and> d' = apply_readings (readings hs) d"
  using history_page_fails [of hs d] history_page_ok [of hs d] by auto

lemma history_page_Inl:
  "history_page hs d = Inl e \<Longrightarrow>
     list_ex (\<lambda>h. dateTime h \<noteq> None \<and> indexes h \<noteq> None \<and> \<not> has_reading h) hs"
  using history_page_ok [of hs d] by auto

lemma forecast_page_Inr:
  "forecast_page hs d = Inr d' \<Longrightarrow>
     \<not> list_ex (\<lambda>h. \<not> has_reading h) hs \<and> d' = apply_readings (readings hs) d"
  using forecast_page_fails [of hs d] forecast_page_ok [of hs d] by auto

lemma forecast_page_Inl:
  "forecast_page hs d = Inl e \<Longrightarrow> list_ex (\<lambda>h. \<not> has_reading h) hs"
  using forecast_page_ok [of hs d] by auto

lemma emitted_after_append:
  "emitted_after srv log (qs @ qs') =
     emitted_after srv log qs @ emitted_after srv (log @ qs) qs'"
  by (induction qs arbitrary: log) simp_all

lemma some_call_fails_append:
  "some_call_fails srv log (qs @ qs') =
     (some_call_fails srv log qs \<or> some_call_fails srv (log @ qs) qs')"
  by (induction qs arbitrary: log) simp_all

lemma run_of_Cons:
  assumes "srv (log @ [q]) = Inr resp" "\<not> page_fails (url_time q) resp"
    and "run_of srv (apply_readings (page_readings (url_time q) resp) d) (log @ [q]) ext y"
  shows "run_of srv d log (q # ext) y"
  using assms
  by (simp add: run_of_def call_fails_def emitted_def apply_readings_append)

lemma run_of_fail:
  assumes "call_fails q (srv (log @ [q]))"
  shows "run_of srv d log [q] (Inl e, log @ [q])"
  using assms by (simp add: run_of_def)

lemma run_of_last:
  assumes "srv (log @ [q]) = Inr resp" "\<not> page_fails (url_time q) resp"
  shows "run_of srv d log [q] (Inr (apply_readings (page_readings (url_time q) resp) d), log @ [q])"
  using assms by (simp add: run_of_def call_fails_def emitted_def)

lemma run_of_append:
  assumes "run_of srv d log ext (Inr d1, log1)" "run_of srv d1 log1 ext' y"
  shows "run_of srv d log (ext @ ext') y"
  using assms
  by (simp add: run_of_def emitted_after_append some_call_fails_append apply_readings_append)

lemma history_loop_run:
  assumes "history_loop srv tok d log = Some y"
  shows "\<exists>ext. ext \<noteq> [] \<and> (\<forall>q \<in> set ext. url_time q = ''history'') \<and> run_of srv d log ext y"
proof (rule history_loop.raw_induct
        [where P = "\<lambda>srv tok d log y.
           \<exists>ext. ext \<noteq> [] \<and> (\<forall>q \<in> set ext. url_time q = ''history'') \<and> run_of srv d log ext y",
         OF _ assms], goal_cases)
  case (1 loop srv tok d log y)
  let ?q = "history_request tok"
  have u: "url_time ?q = ''history''" by (simp add: history_request_def)
  show ?case
  proof (cases "srv (log @ [?q])")
    case (Inl e)
    with 1(2) have "y = (Inl e, log @ [?q])" by (simp add: requests_post_def)
    moreover have "call_fails ?q (srv (log @ [?q]))" by (simp add: Inl call_fails_def)
    ultimately have "run_of srv d log [?q] y" by (simp add: run_of_fail)
    with u show ?thesis by (intro exI [of _ "[?q]"]) simp
  next
    case (Inr resp)
    show ?thesis
    proof (cases "hoursInfo resp")
      case None
      with 1(2) Inr have "y = (Inl (KeyError ''hoursInfo''), log @ [?q])"
        by (simp add: requests_post_def)
      moreover have "call_fails ?q (srv (log @ [?q]))"
        by (simp add: Inr None call_fails_def page_fails_def u)
      ultimately have "run_of srv d log [?q] y" by (simp add: run_of_fail)
      with u show ?thesis by (intro exI [of _ "[?q]"]) simp
    next
      case (Some hs)
      show ?thesis
      proof (cases "history_page hs d")
        case (Inl e)
        with 1(2) Inr Some have "y = (Inl e, log @ [?q])"
          by (simp add: requests_post_def)
        moreover have "call_fails ?q (srv (log @ [?q]))"
          using history_page_Inl [OF Inl] by (simp add: Inr Some call_fails_def page_fails_def u)
        ultimately have "run_of srv d log [?q] y" by (simp add: run_of_fail)
        with u show ?thesis by (intro exI [of _ "[?q]"]) simp
      next
        case (Inr d')
        note page = history_page_Inr [OF Inr]
        have ok: "\<not> page_fails (url_time ?q) resp"
          using page by (simp add: Some page_fails_def u)
        have d': "d' = apply_readings (page_readings (url_time ?q) resp) d"
          using page by (simp add: Some page_readings_def u)
        show ?thesis
        proof (cases "nextPageToken resp")
          case None
          with 1(2) \<open>srv (log @ [?q]) = Inr resp\<close> Some Inr have "y = (Inr d', log @ [?q])"
            by (simp add: requests_post_def)
          with run_of_last [of srv log ?q resp d] \<open>srv (log @ [?q]) = Inr resp\<close> ok d'
          have "run_of srv d log [?q] y" by simp
          with u show ?thesis by (intro exI [of _ "[?q]"]) simp
        next
          case (Some t)
          with 1(2) \<open>srv (log @ [?q]) = Inr resp\<close> \<open>hoursInfo resp = Some hs\<close> Inr
          have "loop srv (Some t) d' (log @ [?q]) = Some y"
            by (simp add: requests_post_def)
          from 1(1) [OF this] obtain ext where
            ex: "ext \<noteq> [] \<and> (\<forall>q \<in> set ext. url_time q = ''history'')
                 \<and> run_of srv d' (log @ [?q]) ext y" ..
          then have ext: "ext \<noteq> []" "\<forall>q \<in> set ext. url_time q = ''history''"
                 "run_of srv d' (log @ [?q]) ext y"
            by simp_all
          from run_of_Cons [of srv log ?q resp d ext y]
               \<open>srv (log @ [?q]) = Inr resp\<close> ok ext(3) d'
          have "run_of srv d log (?q # ext) y" by simp
          with u ext show ?thesis by (intro exI [of _ "?q # ext"]) simp
        qed
      qed
    qed
  qed
qed

lemma forecast_loop_run:
  assumes "forecast_loop srv tok d log = Some y"
  shows "\<exists>ext. ext \<noteq> [] \<and> (\<forall>q \<in> set ext. url_time q = ''forecast'') \<and> run_of srv d log ext y"
proof (rule forecast_loop.raw_induct
        [where P = "\<lambda>srv tok d log y.
           \<exists>ext. ext \<noteq> [] \<and> (\<forall>q \<in> set ext. url_time q = ''forecast'') \<and> run_of srv d log ext y",
         OF _ assms], goal_cases)
  case (1 loop srv tok d log y)
  let ?q = "forecast_request tok"
  have u: "url_time ?q = ''forecast''" by (simp add: forecast_request_def)
  show ?case
  proof (cases "srv (log @ [?q])")
    case (Inl e)
    with 1(2) have "y = (Inl e, log @ [?q])" by (simp add: requests_post_def)
    moreover have "call_fails ?q (srv (log @ [?q]))" by (simp add: Inl call_fails_def)
    ultimately have "run_of srv d log [?q] y" by (simp add: run_of_fail)
    with u show ?thesis by (intro exI [of _ "[?q]"]) simp
  next
    case (Inr resp)
    show ?thesis
    proof (cases "hourlyForecasts resp")
      case None
      with 1(2) Inr have "y = (Inl (KeyError ''hourlyForecasts''), log @ [?q])"
        by (simp add: requests_post_def)
      moreover have "call_fails ?q (srv (log @ [?q]))"
        by (simp add: Inr None call_fails_def page_fails_def u)
      ultimately have "run_of srv d log [?q] y" by (simp add: run_of_fail)
      with u show ?thesis by (intro exI [of _ "[?q]"]) simp
    next
      case (Some hs)
      show ?thesis
      proof (cases "forecast_page hs d")
        case (Inl e)
        with 1(2) Inr Some have "y = (Inl e, log @ [?q])"
          by (simp add: requests_post_def)
        moreover have "call_fails ?q (srv (log @ [?q]))"
          using forecast_page_Inl [OF Inl] by (simp add: Inr Some call_fails_def page_fails_def u)
        ultimately have "run_of srv d log [?q] y" by (simp add: run_of_fail)
        with u show ?thesis by (intro exI [of _ "[?q]"]) simp
      next
        case (Inr d')
        note page = forecast_page_Inr [OF Inr]
        have ok: "\<not> page_fails (url_time ?q) resp"
          using page by (simp add: Some page_fails_def u)
        have d': "d' = apply_readings (page_readings (url_time ?q) resp) d"
          using page by (simp add: Some page_readings_def u)
        show ?thesis
        proof (cases "nextPageToken resp")
          case None
          with 1(2) \<open>srv (log @ [?q]) = Inr resp\<close> Some Inr have "y = (Inr d', log @ [?q])"
            by (simp add: requests_post_def)
          with run_of_last [of srv log ?q resp d] \<open>srv (log @ [?q]) = Inr resp\<close> ok d'
          have "run_of srv d log [?q] y" by simp
          with u show ?thesis by (intro exI [of _ "[?q]"]) simp
        next
          case (Some t)
          with 1(2) \<open>srv (log @ [?q]) = Inr resp\<close> \<open>hourlyForecasts resp = Some hs\<close> Inr
          have "loop srv (Some t) d' (log @ [?q]) = Some y"
            by (simp add: requests_post_def)
          from 1(1) [OF this] obtain ext where
            ex: "ext \<noteq> [] \<and> (\<forall>q \<in> set ext. url_time q = ''forecast'')
                 \<and> run_of srv d' (log @ [?q]) ext y" ..
          then have ext: "ext \<noteq> []" "\<forall>q \<in> set ext. url_time q = ''forecast''"
                 "run_of srv d' (log @ [?q]) ext y"
            by simp_all
          from run_of_Cons [of srv log ?q resp d ext y]
               \<open>srv (log @ [?q]) = Inr resp\<close> ok ext(3) d'
          have "run_of srv d log (?q # ext) y" by simp
          with u ext show ?thesis by (intro exI [of _ "?q # ext"]) simp
        qed
      qed
    qed
  qed
qed


lemma current_conditions_run:
  "run_of srv d log [current_request] (current_conditions srv d log)"
proof -
  let ?q = current_request
  have u: "url_time ?q = ''currentConditions''" by (simp add: current_request_def)
  show ?thesis
  proof (cases "srv (log @ [?q])")
    case (Inl e)
    then have "current_conditions srv d log = (Inl e, log @ [?q])"
      by (simp add: current_conditions_def requests_post_def)
    moreover have "call_fails ?q (srv (log @ [?q]))" by (simp add: Inl call_fails_def)
    ultimately show ?thesis by (simp add: run_of_fail)
  next
    case (Inr resp)
    show ?thesis
    proof (cases "reading resp")
      case (Inl e)
      then have "\<not> has_reading resp" using reading_has [of resp] by auto
      then have "call_fails ?q (srv (log @ [?q]))"
        by (simp add: Inr call_fails_def page_fails_def u)
      moreover have "current_conditions srv d log = (Inl e, log @ [?q])"
        by (simp add: current_conditions_def requests_post_def Inr Inl)
      ultimately show ?thesis by (simp add: run_of_fail)
    next
      case r: (Inr kv)
      obtain k v where kv: "kv = (k, v)" by (cases kv)
      have "has_reading resp" using reading_has_not [of resp] r by auto
      then have ok: "\<not> page_fails (url_time ?q) resp" by (simp add: page_fails_def u)
      have "current_conditions srv d log
              = (Inr (apply_readings (page_readings (url_time ?q) resp) d), log @ [?q])"
        by (simp add: current_conditions_def requests_post_def Inr r kv page_readings_def u)
      with run_of_last [of srv log ?q resp d] Inr ok show ?thesis by simp
    qed
  qed
qed

lemma match_time_run:
  assumes "match_time srv time d log = Some y"
  shows "\<exists>ext. (\<forall>q \<in> set ext. url_time q = time) \<and> run_of srv d log ext y
           \<and> (time \<in> {''forecast'', ''currentConditions'', ''history''} \<longrightarrow> ext \<noteq> [])"
proof -
  consider (h) "time = ''history''" | (c) "time = ''currentConditions''"
    | (f) "time = ''forecast''"
    | (o) "time \<notin> {''forecast'', ''currentConditions'', ''history''}"
    by blast
  then show ?thesis
  proof cases
    case h
    with assms have "history_loop srv None d log = Some y" by (simp add: match_time_def)
    from history_loop_run [OF this] h show ?thesis by auto
  next
    case c
    with assms have "y = current_conditions srv d log" by (simp add: match_time_def)
    with current_conditions_run [of srv d log] c show ?thesis
      by (intro exI [of _ "[current_request]"]) (simp add: current_request_def)
  next
    case f
    with assms have "forecast_loop srv None d log = Some y" by (simp add: match_time_def)
    from forecast_loop_run [OF this] f show ?thesis by auto
  next
    case o
    with assms have "y = (Inr d, log)" by (simp add: match_time_def)
    with o show ?thesis by (intro exI [of _ "[]"]) (simp add: run_of_def)
  qed
qed

lemma for_time_run:
  "for_time srv ts d log = Some y \<Longrightarrow> \<exists>ext. run_of srv d log ext y"
proof (induction ts arbitrary: d log)
  case Nil
  then show ?case by (intro exI [of _ "[]"]) (auto simp add: run_of_def)
next
  case (Cons time later)
  from Cons.prems obtain r log1 where m: "match_time srv time d log = Some (r, log1)"
    by (cases "match_time srv time d log") auto
  from match_time_run [OF m] obtain ext where ext: "run_of srv d log ext (r, log1)" by blast
  show ?case
  proof (cases r)
    case (Inl e)
    with Cons.prems m have "y = (r, log1)" by simp
    with ext show ?thesis by blast
  next
    case (Inr d1)
    with Cons.prems m have "for_time srv later d1 log1 = Some y" by simp
    from Cons.IH [OF this] obtain ext' where "run_of srv d1 log1 ext' y" by blast
    with ext Inr have "run_of srv d log (ext @ ext') y" using run_of_append by blast
    then show ?thesis by blast
  qed
qed

lemma aggregate_run:
  "aggregate srv = Some (res, log) \<Longrightarrow> run_of srv [] [] log (res, log)"
  using for_time_run [of srv "[''forecast'', ''currentConditions'', ''history'']" "[]" "[]" "(res, log)"]
  by (auto simp add: aggregate_def run_of_def)

subsection \<open>Pagination\<close>

lemma history_loop_last:
  assumes "srv (log @ [history_request tok]) = Inr resp" "\<not> page_fails ''history'' resp"
    and "nextPageToken resp = None"
  shows "history_loop srv tok d log
           = Some (Inr (apply_readings (page_readings ''history'' resp) d),
                   log @ [history_request tok])"
  using assms
  by (subst history_loop.simps)
     (simp add: requests_post_def page_fails_def page_readings_def history_page_ok
           split: option.splits)

lemma history_loop_next:
  assumes "srv (log @ [history_request tok]) = Inr resp" "\<not> page_fails ''history'' resp"
    and "nextPageToken resp = Some t"
  shows "history_loop srv tok d log
           = history_loop srv (Some t) (apply_readings (page_readings ''history'' resp) d)
               (log @ [history_request tok])"
  using assms
  by (subst history_loop.simps)
     (simp add: requests_post_def page_fails_def page_readings_def history_page_ok
           split: option.splits)

lemma history_loop_pages:
  assumes "last_page_only ps"
    and "serves srv log (page_requests history_request tok ps) ps"
    and "\<forall>p \<in> set ps. \<not> page_fails ''history'' p"
  shows "history_loop srv tok d log
           = Some (Inr (apply_readings (concat (map (page_readings ''history'') ps)) d),
                   log @ page_requests history_request tok ps)"
  using assms
proof (induction ps arbitrary: tok d log rule: last_page_only.induct)
  case 1
  then show ?case by simp
next
  case (2 p)
  then show ?case by (simp add: history_loop_last)
next
  case (3 p q ps)
  from "3.prems" obtain t where t: "nextPageToken p = Some t" by auto
  from "3.prems" have p: "srv (log @ [history_request tok]) = Inr p"
    "\<not> page_fails ''history'' p" by simp_all
  from "3.prems" t have rest: "last_page_only (q # ps)"
    "serves srv (log @ [history_request tok]) (page_requests history_request (Some t) (q # ps)) (q # ps)"
    "\<forall>p \<in> set (q # ps). \<not> page_fails ''history'' p"
    by simp_all
  have "history_loop srv tok d log
          = history_loop srv (Some t) (apply_readings (page_readings ''history'' p) d)
              (log @ [history_request tok])"
    using history_loop_next [of srv log tok p t d] p t by simp
  also have "\<dots> = Some (Inr (apply_readings (concat (map (page_readings ''history'') (q # ps)))
                              (apply_readings (page_readings ''history'' p) d)),
                        (log @ [history_request tok])
                          @ page_requests history_request (Some t) (q # ps))"
    by (rule "3.IH" [OF rest])
  finally show ?case by (simp add: t apply_readings_append)
qed

lemma history_loop_fails:
  assumes "call_fails (history_request tok) (srv (log @ [history_request tok]))"
  shows "\<exists>e. history_loop srv tok d log = Some (Inl e, log @ [history_request tok])"
proof (cases "srv (log @ [history_request tok])")
  case (Inl e)
  then show ?thesis
    by (subst history_loop.simps) (simp add: requests_post_def)
next
  case (Inr resp)
  with assms have f: "page_fails ''history'' resp"
    by (simp add: call_fails_def history_request_def)
  show ?thesis
  proof (cases "hoursInfo resp")
    case None
    with Inr show ?thesis
      by (subst history_loop.simps) (simp add: requests_post_def)
  next
    case (Some hs)
    with f have "isl (history_page hs d)"
      by (simp add: page_fails_def history_page_fails)
    then obtain e where "history_page hs d = Inl e"
      by (cases "history_page hs d") simp_all
    with Inr Some show ?thesis
      by (subst history_loop.simps) (simp add: requests_post_def)
  qed
qed

lemma forecast_loop_fails:
  assumes "call_fails (forecast_request tok) (srv (log @ [forecast_request tok]))"
  shows "\<exists>e. forecast_loop srv tok d log = Some (Inl e, log @ [forecast_request tok])"
proof (cases "srv (log @ [forecast_request tok])")
  case (Inl e)
  then show ?thesis
    by (subst forecast_loop.simps) (simp add: requests_post_def)
next
  case (Inr resp)
  with assms have f: "page_fails ''forecast'' resp"
    by (simp add: call_fails_def forecast_request_def)
  show ?thesis
  proof (cases "hourlyForecasts resp")
    case None
    with Inr show ?thesis
      by (subst forecast_loop.simps) (simp add: requests_post_def)
  next
    case (Some hs)
    with f have "isl (forecast_page hs d)"
      by (simp add: page_fails_def forecast_page_fails)
    then obtain e where "forecast_page hs d = Inl e"
      by (cases "forecast_page hs d") simp_all
    with Inr Some show ?thesis
      by (subst forecast_loop.simps) (simp add: requests_post_def)
  qed
qed

lemma current_conditions_fails:
  assumes "call_fails current_request (srv (log @ [current_request]))"
  shows "\<exists>e. current_conditions srv d log = (Inl e, log @ [current_request])"
proof (cases "srv (log @ [current_request])")
  case (Inl e)
  then show ?thesis by (simp add: current_conditions_def requests_post_def)
next
  case (Inr resp)
  with assms have "\<not> has_reading resp"
    by (simp add: call_fails_def page_fails_def current_request_def)
  then have "isl (reading resp)" by (rule reading_has_not)
  then obtain e where "reading resp = Inl e" by (cases "reading resp") simp_all
  with Inr show ?thesis by (simp add: current_conditions_def requests_post_def)
qed

lemma length_page_requests: "length (page_requests mk tok ps) = length ps"
  by (induction ps arbitrary: tok) simp_all

lemma forecast_loop_last:
  assumes "srv (log @ [forecast_request tok]) = Inr resp" "\<not> page_fails ''forecast'' resp"
    and "nextPageToken resp = None"
  shows "forecast_loop srv tok d log
           = Some (Inr (apply_readings (page_readings ''forecast'' resp) d),
                   log @ [forecast_request tok])"
  using assms
  by (subst forecast_loop.simps)
     (simp add: requests_post_def page_fails_def page_readings_def forecast_page_ok
           split: option.splits)

lemma forecast_loop_next:
  assumes "srv (log @ [forecast_request tok]) = Inr resp" "\<not> page_fails ''forecast'' resp"
    and "nextPageToken resp = Some t"
  shows "forecast_loop srv tok d log
           = forecast_loop srv (Some t) (apply_readings (page_readings ''forecast'' resp) d)
               (log @ [forecast_request tok])"
  using assms
  by (subst forecast_loop.simps)
     (simp add: requests_post_def page_fails_def page_readings_def forecast_page_ok
           split: option.splits)

lemma forecast_loop_pages:
  assumes "last_page_only ps"
    and "serves srv log (page_requests forecast_request tok ps) ps"
    and "\<forall>p \<in> set ps. \<not> page_fails ''forecast'' p"
  shows "forecast_loop srv tok d log
           = Some (Inr (apply_readings (concat (map (page_readings ''forecast'') ps)) d),
                   log @ page_requests forecast_request tok ps)"
  using assms
proof (induction ps arbitrary: tok d log rule: last_page_only.induct)
  case 1
  then show ?case by simp
next
  case (2 p)
  then show ?case by (simp add: forecast_loop_last)
next
  case (3 p q ps)
  from "3.prems" obtain t where t: "nextPageToken p = Some t" by auto
  from "3.prems" have p: "srv (log @ [forecast_request tok]) = Inr p"
    "\<not> page_fails ''forecast'' p" by simp_all
  from "3.prems" t have rest: "last_page_only (q # ps)"
    "serves srv (log @ [forecast_request tok]) (page_requests forecast_request (Some t) (q # ps)) (q # ps)"
    "\<forall>p \<in> set (q # ps). \<not> page_fails ''forecast'' p"
    by simp_all
  have "forecast_loop srv tok d log
          = forecast_loop srv (Some t) (apply_readings (page_readings ''forecast'' p) d)
              (log @ [forecast_request tok])"
    using forecast_loop_next [of srv log tok p t d] p t by simp
  also have "\<dots> = Some (Inr (apply_readings (concat (map (page_readings ''forecast'') (q # ps)))
                              (apply_readings (page_readings ''forecast'' p) d)),
                        (log @ [forecast_request tok])
                          @ page_requests forecast_request (Some t) (q # ps))"
    by (rule "3.IH" [OF rest])
  finally show ?case by (simp add: t apply_readings_append)
qed

lemma fetch_loop_pages:
  assumes "follows srv log b bs" "\<forall>p \<in> set (b # bs). \<not> isl (bundle_resources p)"
  shows "fetch_loop srv (Some b) rs log
           = Some (Inr (rs @ concat (map resources_of (b # bs))), log @ link_calls b bs)"
  using assms
proof (induction bs arbitrary: b rs log)
  case Nil
  then obtain nxt where nxt: "next_link b = Inr nxt" "\<not> truthy_str nxt"
    by (cases "next_link b") auto
  from Nil obtain r where r: "bundle_resources b = Inr r"
    by (cases "bundle_resources b") auto
  have "fetch_loop srv (Some b) rs log = fetch_loop srv None (rs @ r) log"
    by (subst fetch_loop.simps) (simp add: nxt r)
  also have "\<dots> = Some (Inr (rs @ r), log)"
    by (subst fetch_loop.simps) simp
  finally show ?case using r by (simp add: resources_of_def)
next
  case (Cons b' bs)
  from Cons.prems obtain nxt where nxt: "next_link b = Inr nxt" "truthy_str nxt"
    "srv (log @ [nxt]) = Inr b'" "follows srv (log @ [nxt]) b' bs"
    by (cases "next_link b") auto
  from Cons.prems obtain r where r: "bundle_resources b = Inr r"
    by (cases "bundle_resources b") auto
  from Cons.prems have rest: "\<forall>p \<in> set (b' # bs). \<not> isl (bundle_resources p)" by simp
  have "fetch_loop srv (Some b) rs log = fetch_loop srv (Some b') (rs @ r) (log @ [nxt])"
    by (subst fetch_loop.simps) (simp add: nxt r)
  also have "\<dots> = Some (Inr ((rs @ r) @ concat (map resources_of (b' # bs))),
                        (log @ [nxt]) @ link_calls b' bs)"
    by (rule Cons.IH [OF nxt(4) rest])
  finally show ?case
    using nxt(1) resources_of_def [of b] by (simp add: r)
qed

lemma length_link_calls: "length (link_calls b bs) = length bs"
  by (induction bs arbitrary: b) simp_all

lemma fetch_all_pages:
  assumes "srv [None] = Inr b" "follows srv [None] b bs"
    "\<forall>p \<in> set (b # bs). \<not> isl (bundle_resources p)"
  shows "fetch_all_resources srv
           = Some (Inr (concat (map resources_of (b # bs))), None # link_calls b bs)"
  using fetch_loop_pages [OF assms(2,3), of "[]"] assms(1)
  by (simp add: fetch_all_resources_def)

lemma three_bundles_served:
  "bundle_service [None] = Inr (bundle_page [1, 2] (Some ''https://fhir.example/page2''))
   \<and> follows bundle_service [None] (bundle_page [1, 2] (Some ''https://fhir.example/page2''))
       [bundle_page [3] (Some ''https://fhir.example/page3''), bundle_page [4, 5] None]
   \<and> (\<forall>p \<in> set three_bundles. \<not> isl (bundle_resources p))"
  by (simp add: bundle_service_def three_bundles_def bundle_page_def next_link_def
        bundle_resources_def getattr_def truthy_str_def)

lemma three_bundles_result:
  "concat (map resources_of three_bundles) = [Some 1, Some 2, Some 3, Some 4, Some 5]"
  by (simp add: three_bundles_def bundle_page_def resources_of_def bundle_resources_def
        getattr_def)

subsection \<open>Order of the calls\<close>

lemma remdups_adj_same:
  "xs \<noteq> [] \<Longrightarrow> \<forall>x \<in> set xs. f x = c \<Longrightarrow> remdups_adj (map f xs) = [c]"
proof (induction xs)
  case Nil
  then show ?case by simp
next
  case (Cons x xs)
  then show ?case by (cases xs) auto
qed

lemma remdups_adj_blocks:
  assumes "xs \<noteq> []" "\<forall>x \<in> set xs. f x = a" "f y \<noteq> a"
  shows "remdups_adj (map f (xs @ y # ys)) = a # remdups_adj (map f (y # ys))"
  using assms
proof (induction xs)
  case Nil
  then show ?case by simp
next
  case (Cons x xs)
  show ?case
  proof (cases xs)
    case Nil
    with Cons.prems show ?thesis by simp
  next
    case (Cons x' xs')
    with Cons.prems Cons.IH show ?thesis by simp
  qed
qed

lemma aggregate_phases:
  assumes "aggregate srv = Some (Inr d, log)"
  shows "\<exists>fs hs. log = fs @ current_request # hs
           \<and> fs \<noteq> [] \<and> (\<forall>q \<in> set fs. url_time q = ''forecast'')
           \<and> hs \<noteq> [] \<and> (\<forall>q \<in> set hs. url_time q = ''history'')"
proof -
  from assms obtain r1 l1 where m1: "match_time srv ''forecast'' [] [] = Some (r1, l1)"
    by (cases "match_time srv ''forecast'' [] []") (auto simp add: aggregate_def)
  from assms m1 obtain d1 where r1: "r1 = Inr d1"
    by (cases r1) (auto simp add: aggregate_def)
  from m1 have "forecast_loop srv None [] [] = Some (r1, l1)" by (simp add: match_time_def)
  from forecast_loop_run [OF this] obtain fs where
    fs: "fs \<noteq> [] \<and> (\<forall>q \<in> set fs. url_time q = ''forecast'') \<and> run_of srv [] [] fs (r1, l1)" ..
  then have l1: "l1 = fs" by (simp add: run_of_def)
  obtain r2 l2 where c: "current_conditions srv d1 l1 = (r2, l2)"
    by (cases "current_conditions srv d1 l1")
  with assms m1 r1 obtain d2 where r2: "r2 = Inr d2"
    by (cases r2) (auto simp add: aggregate_def match_time_def)
  from current_conditions_run [of srv d1 l1] c have l2: "l2 = l1 @ [current_request]"
    by (simp add: run_of_def)
  from assms m1 r1 c r2 have "history_loop srv None d2 l2 = Some (Inr d, log)"
    by (auto simp add: aggregate_def match_time_def split: option.splits sum.splits)
  from history_loop_run [OF this] obtain hs where
    hs: "hs \<noteq> [] \<and> (\<forall>q \<in> set hs. url_time q = ''history'') \<and> run_of srv d2 l2 hs (Inr d, log)" ..
  then have "log = l2 @ hs" by (simp add: run_of_def)
  with l1 l2 have "log = fs @ current_request # hs" by simp
  with fs hs show ?thesis by blast
qed

lemma aggregate_order:
  assumes "aggregate srv = Some (Inr d, log)"
  shows "remdups_adj (map url_time log) = [''forecast'', ''currentConditions'', ''history'']"
proof -
  from aggregate_phases [OF assms] obtain fs hs where
    p: "log = fs @ current_request # hs \<and> fs \<noteq> [] \<and> (\<forall>q \<in> set fs. url_time q = ''forecast'')
       \<and> hs \<noteq> [] \<and> (\<forall>q \<in> set hs. url_time q = ''history'')"
    by blast
  have c: "url_time current_request = ''currentConditions''" by (simp add: current_request_def)
  obtain h hs' where hs: "hs = h # hs'" using p by (cases hs) auto
  have h: "url_time h \<noteq> ''currentConditions''" using p hs by simp
  have "remdups_adj (map url_time hs) = [''history'']"
    using remdups_adj_same [of hs url_time "''history''"] p by simp
  then have "remdups_adj (map url_time (current_request # hs)) = [''currentConditions'', ''history'']"
    using remdups_adj_blocks [of "[current_request]" url_time "''currentConditions''" h hs'] c h hs
    by simp
  moreover have "remdups_adj (map url_time (fs @ current_request # hs))
                   = ''forecast'' # remdups_adj (map url_time (current_request # hs))"
    using remdups_adj_blocks [of fs url_time "''forecast''" current_request hs] p c by simp
  ultimately show ?thesis using p by simp
qed

subsection \<open>Environmental Reading Aggregator\<close>

lemmas run_simps =
  aggregate_def match_time_def forecast_loop.simps history_loop.simps
  current_conditions_def requests_post_def endpoint_service_def
  forecast_body_def history_body_def current_body_def hour_def reading_def
  forecast_request_def current_request_def history_request_def three_calls_def

lemmas emitted_simps =
  emitted_def page_readings_def endpoint_service_def
  forecast_body_def history_body_def current_body_def hour_def reading_def
  forecast_request_def current_request_def history_request_def three_calls_def

lemma collision_run:
  "aggregate collision_service = Some (Inr [(''2024-06-01T12:00:00Z'', 30)], three_calls)"
  by (simp add: collision_service_def run_simps)

lemma collision_emitted:
  "emitted_after collision_service [] three_calls
     = [(''2024-06-01T12:00:00Z'', 41), (''2024-06-01T12:00:00Z'', 35),
        (''2024-06-01T12:00:00Z'', 30)]"
  by (simp add: collision_service_def emitted_simps)

lemma noon_run:
  "aggregate noon_service =
     Some (Inr [(''2024-06-01T13:00:00Z'', 40), (''2024-06-01T14:00:00Z'', 45),
                (''2024-06-01T12:00:00Z'', 35), (''2024-06-01T10:00:00Z'', 28),
                (''2024-06-01T11:00:00Z'', 30)],
           three_calls)"
  by (simp add: noon_service_def run_simps)

lemma gap_run:
  "aggregate gap_service =
     Some (Inr [(''2024-06-01T13:00:00Z'', 40), (''2024-06-01T12:00:00Z'', 35),
                (''2024-06-01T10:00:00Z'', 28)],
           three_calls)"
  by (simp add: gap_service_def run_simps)

lemma broken_run:
  "aggregate broken_service = Some (Inl (KeyError ''dateTime''), [forecast_request None])"
  by (simp add: broken_service_def run_simps)

text \<open>
  C1, as stated, at a service whose three endpoints report the same time stamp, the
  forecast with 41, the current conditions with 35 and the history with 30: the claim makes
  the calls history, current, forecast and the merged value 41. Line 98 iterates
  \<^verbatim>\<open>['forecast', 'currentConditions', 'history']\<close>: the calls are forecast, current,
  history and the merged value is 30, the value of the history call.
\<close>

theorem C1_counterexample:
  "aggregate collision_service = Some (Inr [(''2024-06-01T12:00:00Z'', 30)], three_calls)
   \<and> map url_time three_calls = [''forecast'', ''currentConditions'', ''history'']
   \<and> emitted_after collision_service [] three_calls
       = [(''2024-06-01T12:00:00Z'', 41), (''2024-06-01T12:00:00Z'', 35),
          (''2024-06-01T12:00:00Z'', 30)]
   \<and> map_of [(''2024-06-01T12:00:00Z'', 30 :: int)] ''2024-06-01T12:00:00Z'' \<noteq> Some 41"
  by (simp add: collision_run collision_emitted)
     (simp add: three_calls_def forecast_request_def current_request_def history_request_def)

text \<open>
  C1, amended: the aggregator issues the endpoint calls sequentially in the fixed order
  forecast, then current, then history (each of the first and the last possibly several
  pages), and the merged dictionary is the result of writing every reading in the order of
  the calls; so for a time stamp that several calls produce, the value of the latest call in
  that order (history last) stands.
\<close>

theorem C1_call_order_and_overwrite:
  assumes "aggregate srv = Some (Inr d, log)"
  shows "remdups_adj (map url_time log) = [''forecast'', ''currentConditions'', ''history'']
       \<and> d = apply_readings (emitted_after srv [] log) []
       \<and> (\<forall>t. map_of d t =
             (if values_for t (emitted_after srv [] log) = [] then None
              else Some (last (values_for t (emitted_after srv [] log)))))"
proof -
  from aggregate_run [OF assms] have d: "d = apply_readings (emitted_after srv [] log) []"
    by (simp add: run_of_def)
  have "map_of d t =
          (if values_for t (emitted_after srv [] log) = [] then None
           else Some (last (values_for t (emitted_after srv [] log))))" for t
    using map_of_apply_readings [of "emitted_after srv [] log" "[]" t] d by simp
  with aggregate_order [OF assms] d show ?thesis by blast
qed

theorem C1_call_order_and_overwrite_witness:
  "aggregate collision_service = Some (Inr [(''2024-06-01T12:00:00Z'', 30)], three_calls)
   \<and> remdups_adj (map url_time three_calls) = [''forecast'', ''currentConditions'', ''history'']
   \<and> values_for ''2024-06-01T12:00:00Z'' (emitted_after collision_service [] three_calls)
       = [41, 35, 30]
   \<and> map_of [(''2024-06-01T12:00:00Z'', 30 :: int)] ''2024-06-01T12:00:00Z'' = Some 30"
  using C1_call_order_and_overwrite [OF collision_run] collision_run
  by (simp add: collision_emitted values_for_def)

text \<open>
  C3, as stated, at a service whose history page has an entry with a time stamp and no
  \<open>indexes\<close> key: the claim makes the aggregation fail. The guard of line 113 skips the
  entry and the aggregation returns a dictionary without the hour 11:00.
\<close>

theorem C3_counterexample:
  "aggregate gap_service =
     Some (Inr [(''2024-06-01T13:00:00Z'', 40), (''2024-06-01T12:00:00Z'', 35),
                (''2024-06-01T10:00:00Z'', 28)],
           three_calls)
   \<and> gap_service three_calls
       = Inr (history_body [hour ''2024-06-01T10:00:00Z'' 28,
                            \<lparr>dateTime = Some ''2024-06-01T11:00:00Z'', indexes = None\<rparr>] None)"
  by (simp add: gap_run)
     (simp add: gap_service_def endpoint_service_def three_calls_def history_request_def)

text \<open>
  C3, amended: a call that fails (the request or the decoding raises, the list of entries
  is missing, an entry of a forecast page or the current-conditions body lacks the time
  stamp, the indexes, a first index or its value, or a history entry that has a time stamp
  and indexes lacks a first index or its value) ends its loop at once with an exception,
  and an exception of one endpoint ends the loop over the endpoints; so a run in which a
  call fails ends with an exception and returns no dictionary, and a dictionary that is
  returned holds the readings of every call. History entries without a time stamp or
  without indexes are skipped.
\<close>

theorem C3_failed_call_ends_run:
  "(call_fails (forecast_request tok) (srv (log @ [forecast_request tok])) \<longrightarrow>
      (\<exists>e. forecast_loop srv tok d log = Some (Inl e, log @ [forecast_request tok])))
   \<and> (call_fails current_request (srv (log @ [current_request])) \<longrightarrow>
      (\<exists>e. current_conditions srv d log = (Inl e, log @ [current_request])))
   \<and> (call_fails (history_request tok) (srv (log @ [history_request tok])) \<longrightarrow>
      (\<exists>e. history_loop srv tok d log = Some (Inl e, log @ [history_request tok])))
   \<and> (match_time srv time d log = Some (Inl e, log') \<longrightarrow>
      for_time srv (time # later) d log = Some (Inl e, log'))
   \<and> (aggregate srv = Some (res, calls) \<longrightarrow>
      (some_call_fails srv [] calls \<longrightarrow> isl res)
      \<and> (\<forall>d'. res = Inr d' \<longrightarrow>
            \<not> some_call_fails srv [] calls
            \<and> d' = apply_readings (emitted_after srv [] calls) []))"
proof (intro conjI impI)
  assume "aggregate srv = Some (res, calls)"
  from aggregate_run [OF this]
  show "\<forall>d'. res = Inr d' \<longrightarrow>
          \<not> some_call_fails srv [] calls \<and> d' = apply_readings (emitted_after srv [] calls) []"
    by (auto simp add: run_of_def)
next
  assume "aggregate srv = Some (res, calls)" "some_call_fails srv [] calls"
  with aggregate_run [of srv res calls] show "isl res"
    by (simp add: run_of_def)
qed (simp_all add: forecast_loop_fails current_conditions_fails history_loop_fails)

theorem C3_failed_call_ends_run_witness:
  "(\<exists>e. forecast_loop down_service None [] [] = Some (Inl e, [forecast_request None]))
   \<and> (\<exists>e. current_conditions down_service [] [] = (Inl e, [current_request]))
   \<and> (\<exists>e. history_loop down_service None [] [] = Some (Inl e, [history_request None]))
   \<and> for_time broken_service [''forecast'', ''currentConditions'', ''history''] [] []
       = Some (Inl (KeyError ''dateTime''), [forecast_request None])
   \<and> some_call_fails broken_service [] [forecast_request None]
   \<and> isl (Inl (KeyError ''dateTime'') :: error + aqi_results)
   \<and> \<not> some_call_fails gap_service [] three_calls"
proof -
  have down: "call_fails q (down_service (log @ [q]))" for q log
    by (simp add: call_fails_def down_service_def)
  have fails: "some_call_fails broken_service [] [forecast_request None]"
    by (simp add: broken_service_def endpoint_service_def forecast_request_def call_fails_def
          page_fails_def forecast_body_def has_reading_def)
  have m: "match_time broken_service ''forecast'' [] []
             = Some (Inl (KeyError ''dateTime''), [forecast_request None])"
    by (simp add: broken_service_def run_simps)
  note down_run =
    C3_failed_call_ends_run
      [of None down_service "[]" "[]" "''forecast''" ConnectionError "[]" "[]"
          "Inl ConnectionError" "[]"]
  note fail_run =
    C3_failed_call_ends_run
      [of None broken_service "[]" "[]" "''forecast''" "KeyError ''dateTime''"
          "[forecast_request None]" "[''currentConditions'', ''history'']"
          "Inl (KeyError ''dateTime'')" "[forecast_request None]"]
  note ok_run =
    C3_failed_call_ends_run
      [of None gap_service "[]" "[]" "''forecast''" ConnectionError "[]" "[]" _ three_calls]
  from down_run down [of _ "[]"] have
    "(\<exists>e. forecast_loop down_service None [] [] = Some (Inl e, [forecast_request None]))
     \<and> (\<exists>e. current_conditions down_service [] [] = (Inl e, [current_request]))
     \<and> (\<exists>e. history_loop down_service None [] [] = Some (Inl e, [history_request None]))"
    by simp
  moreover from fail_run m have
    "for_time broken_service [''forecast'', ''currentConditions'', ''history''] [] []
       = Some (Inl (KeyError ''dateTime''), [forecast_request None])"
    by blast
  moreover from fail_run broken_run fails have
    "isl (Inl (KeyError ''dateTime'') :: error + aqi_results)"
    by blast
  moreover from ok_run gap_run have "\<not> some_call_fails gap_service [] three_calls"
    by blast
  ultimately show ?thesis using fails by simp
qed

lemma keys_pages:
  "p \<in> set ps \<Longrightarrow>
     fst ` set (page_readings time p) \<subseteq> fst ` set (apply_readings (pages_readings time ps) d)"
  by (auto simp add: keys_apply_readings pages_readings_def)

text \<open>
  C7: for a sequence of n pages that the code accepts, in which only the last page has no
  continuation token, served in answer to the requests of the loop, the history loop and
  the forecast loop each end after exactly the n requests that carry the tokens of the
  pages before them, and the dictionary they return is the one obtained by writing the
  readings of every page in order: every time stamp of every page is a key of it, and its
  value is the last one the pages give for it. In the same way the loop of
  fetch\_all\_resources, for n bundles in which only the last has no next link, makes
  exactly n calls (the search and one for each next link) and returns the resources of
  every bundle.
\<close>

theorem C7_pagination_calls_and_pages:
  "(last_page_only hps \<and> serves srv log (page_requests history_request None hps) hps
      \<and> (\<forall>p \<in> set hps. \<not> page_fails ''history'' p) \<longrightarrow>
        history_loop srv None d log
          = Some (Inr (apply_readings (pages_readings ''history'' hps) d),
                  log @ page_requests history_request None hps)
      \<and> length (page_requests history_request None hps) = length hps
      \<and> (\<forall>p \<in> set hps. fst ` set (page_readings ''history'' p)
            \<subseteq> fst ` set (apply_readings (pages_readings ''history'' hps) d)))
   \<and> (last_page_only fps \<and> serves srv log (page_requests forecast_request None fps) fps
      \<and> (\<forall>p \<in> set fps. \<not> page_fails ''forecast'' p) \<longrightarrow>
        forecast_loop srv None d log
          = Some (Inr (apply_readings (pages_readings ''forecast'' fps) d),
                  log @ page_requests forecast_request None fps)
      \<and> length (page_requests forecast_request None fps) = length fps
      \<and> (\<forall>p \<in> set fps. fst ` set (page_readings ''forecast'' p)
            \<subseteq> fst ` set (apply_readings (pages_readings ''forecast'' fps) d)))
   \<and> (\<forall>time ps t. map_of (apply_readings (pages_readings time ps) d) t =
         (if values_for t (pages_readings time ps) = [] then map_of d t
          else Some (last (values_for t (pages_readings time ps)))))
   \<and> (fsrv [None] = Inr b \<and> follows fsrv [None] b bs
      \<and> (\<forall>p \<in> set (b # bs). \<not> isl (bundle_resources p)) \<longrightarrow>
        fetch_all_resources fsrv
          = Some (Inr (concat (map resources_of (b # bs))), None # link_calls b bs)
      \<and> length (None # link_calls b bs) = length (b # bs))"
  using history_loop_pages [of hps srv log None d] forecast_loop_pages [of fps srv log None d]
        fetch_all_pages [of fsrv b bs]
  by (simp add: pages_readings_def [symmetric] length_page_requests keys_pages
        map_of_apply_readings length_link_calls)

lemma three_pages_served:
  "last_page_only three_pages
   \<and> serves (paged_service three_pages) [] (page_requests history_request None three_pages)
       three_pages
   \<and> (\<forall>p \<in> set three_pages. \<not> page_fails ''history'' p)"
  by (simp add: three_pages_def paged_service_def history_body_def history_request_def
        page_fails_def hour_def has_reading_def)

lemma three_forecast_pages_served:
  "last_page_only three_forecast_pages
   \<and> serves (paged_service three_forecast_pages) []
       (page_requests forecast_request None three_forecast_pages) three_forecast_pages
   \<and> (\<forall>p \<in> set three_forecast_pages. \<not> page_fails ''forecast'' p)"
  by (simp add: three_forecast_pages_def paged_service_def forecast_body_def
        forecast_request_def page_fails_def hour_def has_reading_def)

theorem C7_pagination_calls_and_pages_witness:
  "history_loop (paged_service three_pages) None [] []
     = Some (Inr [(''2024-06-01T09:00:00Z'', 25), (''2024-06-01T10:00:00Z'', 28),
                  (''2024-06-01T11:00:00Z'', 30)],
             [history_request None, history_request (Some ''p2''),
              history_request (Some ''p3'')])
   \<and> forecast_loop (paged_service three_forecast_pages) None [] []
     = Some (Inr [(''2024-06-01T13:00:00Z'', 40), (''2024-06-01T14:00:00Z'', 45),
                  (''2024-06-01T15:00:00Z'', 50)],
             [forecast_request None, forecast_request (Some ''p2''),
              forecast_request (Some ''p3'')])
   \<and> fetch_all_resources bundle_service
     = Some (Inr [Some 1, Some 2, Some 3, Some 4, Some 5],
             [None, Some ''https://fhir.example/page2'', Some ''https://fhir.example/page3''])"
proof -
  let ?b = "bundle_page [1, 2] (Some ''https://fhir.example/page2'')"
  let ?bs = "[bundle_page [3] (Some ''https://fhir.example/page3''), bundle_page [4, 5] None]"
  have bq: "None # link_calls ?b ?bs
              = [None, Some ''https://fhir.example/page2'', Some ''https://fhir.example/page3'']"
    by (simp add: bundle_page_def next_link_def getattr_def)
  have bl: "?b # ?bs = three_bundles" by (simp add: three_bundles_def)
  from C7_pagination_calls_and_pages
         [of three_pages "paged_service three_pages" "[]" "[]" three_forecast_pages
             bundle_service ?b ?bs]
       three_bundles_served
  have "fetch_all_resources bundle_service
          = Some (Inr (concat (map resources_of (?b # ?bs))), None # link_calls ?b ?bs)"
    unfolding bl by blast
  then have b: "fetch_all_resources bundle_service
     = Some (Inr [Some 1, Some 2, Some 3, Some 4, Some 5],
             [None, Some ''https://fhir.example/page2'', Some ''https://fhir.example/page3''])"
    unfolding bq bl three_bundles_result .
  have h: "apply_readings (pages_readings ''history'' three_pages) []
             = [(''2024-06-01T09:00:00Z'', 25), (''2024-06-01T10:00:00Z'', 28),
                (''2024-06-01T11:00:00Z'', 30)]"
    by (simp add: pages_readings_def page_readings_def three_pages_def history_body_def
          hour_def reading_def)
  have hq: "page_requests history_request None three_pages
              = [history_request None, history_request (Some ''p2''),
                 history_request (Some ''p3'')]"
    by (simp add: three_pages_def history_body_def)
  have f: "apply_readings (pages_readings ''forecast'' three_forecast_pages) []
             = [(''2024-06-01T13:00:00Z'', 40), (''2024-06-01T14:00:00Z'', 45),
                (''2024-06-01T15:00:00Z'', 50)]"
    by (simp add: pages_readings_def page_readings_def three_forecast_pages_def
          forecast_body_def hour_def reading_def)
  have fq: "page_requests forecast_request None three_forecast_pages
              = [forecast_request None, forecast_request (Some ''p2''),
                 forecast_request (Some ''p3'')]"
    by (simp add: three_forecast_pages_def forecast_body_def)
  from C7_pagination_calls_and_pages
         [of three_pages "paged_service three_pages" "[]" "[]" three_forecast_pages]
       three_pages_served
  have "history_loop (paged_service three_pages) None [] []
          = Some (Inr (apply_readings (pages_readings ''history'' three_pages) []),
                  [] @ page_requests history_request None three_pages)"
    by blast
  moreover
  from C7_pagination_calls_and_pages
         [of three_pages "paged_service three_forecast_pages" "[]" "[]" three_forecast_pages]
       three_forecast_pages_served
  have "forecast_loop (paged_service three_forecast_pages) None [] []
          = Some (Inr (apply_readings (pages_readings ''forecast'' three_forecast_pages) []),
                  [] @ page_requests forecast_request None three_forecast_pages)"
    by blast
  ultimately show ?thesis using b by (simp add: h hq f fq)
qed

subsection \<open>Chart Series Splitter\<close>

lemma getitems_keys:
  "set ks \<subseteq> fst ` set d \<Longrightarrow> getitems d ks = Inr (map (\<lambda>k. the (map_of d k)) ks)"
proof (induction ks)
  case Nil
  then show ?case by simp
next
  case (Cons k ks)
  then have "k \<in> fst ` set d" by simp
  then obtain v where "map_of d k = Some v"
    by (metis domD dom_map_of_conv_image_fst)
  with Cons show ?case by (simp add: getitem_def)
qed

lemma trace_filter:
  "bindE (getitems d (filter P (map fst d))) (\<lambda>y. Inr (filter P (map fst d), y))
     = Inr (filter P (map fst d), map (\<lambda>k. the (map_of d k)) (filter P (map fst d)))"
  by (simp add: getitems_keys subset_iff)

lemma zip_lookup:
  "map_of d k = Some v \<Longrightarrow> P k \<Longrightarrow>
     (k, v) \<in> set (zip (filter P (map fst d)) (map (\<lambda>k. the (map_of d k)) (filter P (map fst d))))"
proof -
  assume a: "map_of d k = Some v" "P k"
  then have "k \<in> set (filter P (map fst d))"
    by (auto dest: map_of_SomeD intro: rev_image_eqI)
  then have "(k, the (map_of d k)) \<in> (\<lambda>k. (k, the (map_of d k))) ` set (filter P (map fst d))"
    by blast
  with a show ?thesis by (simp add: zip_map2 zip_same_conv_map image_image)
qed

text \<open>
  C6: for every dictionary and every current time the two traces are built without an
  exception; every time stamp of the first trace is at most the current time and every
  time stamp of the second is at least the current time, in the order on strings the code
  compares with; a reading whose time stamp equals the current time is a point of both.
\<close>

theorem C6_boundary_in_both_traces:
  "\<exists>ox oy fx fy.
     chart_traces d now = Inr ((ox, oy), (fx, fy))
     \<and> length oy = length ox \<and> length fy = length fx
     \<and> (\<forall>t \<in> set ox. t \<le> now)
     \<and> (\<forall>t \<in> set fx. now \<le> t)
     \<and> (\<forall>v. map_of d now = Some v \<longrightarrow>
           (now, v) \<in> set (zip ox oy) \<and> (now, v) \<in> set (zip fx fy))"
proof -
  let ?ox = "filter (\<lambda>dt. dt \<le> now) (map fst d)"
  let ?fx = "filter (\<lambda>dt. now \<le> dt) (map fst d)"
  let ?y = "map (\<lambda>k. the (map_of d k))"
  have c: "chart_traces d now = Inr ((?ox, ?y ?ox), (?fx, ?y ?fx))"
    by (simp add: chart_traces_def observed_trace_def forecast_trace_def trace_filter Let_def)
  have "(now, v) \<in> set (zip ?ox (?y ?ox)) \<and> (now, v) \<in> set (zip ?fx (?y ?fx))"
    if "map_of d now = Some v" for v
    using zip_lookup [of d now v "\<lambda>dt. dt \<le> now"] zip_lookup [of d now v "\<lambda>dt. now \<le> dt"] that
    by simp
  with c show ?thesis
    by (intro exI [of _ ?ox] exI [of _ "?y ?ox"] exI [of _ ?fx] exI [of _ "?y ?fx"]) simp
qed

theorem C6_boundary_in_both_traces_witness:
  "map_of [(''2024-06-01T13:00:00Z'', 40 :: int), (''2024-06-01T12:00:00Z'', 35),
           (''2024-06-01T11:00:00Z'', 30)] noon = Some 35
   \<and> (\<exists>ox oy fx fy.
        chart_traces [(''2024-06-01T13:00:00Z'', 40), (''2024-06-01T12:00:00Z'', 35),
           (''2024-06-01T11:00:00Z'', 30)] noon = Inr ((ox, oy), (fx, fy))
        \<and> (noon, 35) \<in> set (zip ox oy) \<and> (noon, 35) \<in> set (zip fx fy))"
proof -
  have m: "map_of [(''2024-06-01T13:00:00Z'', 40 :: int), (''2024-06-01T12:00:00Z'', 35),
           (''2024-06-01T11:00:00Z'', 30)] noon = Some 35"
    by (simp add: noon_def)
  from C6_boundary_in_both_traces
         [of "[(''2024-06-01T13:00:00Z'', 40), (''2024-06-01T12:00:00Z'', 35),
               (''2024-06-01T11:00:00Z'', 30)]" noon] m
  show ?thesis by blast
qed

text \<open>
  C2 at a service that answers with two forecast hours, the current hour and two history
  hours, each page ascending: the claim makes both traces ascending. The statement that
  sorts is commented out (line 148, under the comment of line 147 that announces the
  sort), the traces keep the insertion order of the dictionary, and neither is sorted.
\<close>

theorem C2_traces_not_sorted:
  "aggregate noon_service =
     Some (Inr [(''2024-06-01T13:00:00Z'', 40), (''2024-06-01T14:00:00Z'', 45),
                (''2024-06-01T12:00:00Z'', 35), (''2024-06-01T10:00:00Z'', 28),
                (''2024-06-01T11:00:00Z'', 30)],
           three_calls)
   \<and> chart_traces [(''2024-06-01T13:00:00Z'', 40), (''2024-06-01T14:00:00Z'', 45),
                    (''2024-06-01T12:00:00Z'', 35), (''2024-06-01T10:00:00Z'', 28),
                    (''2024-06-01T11:00:00Z'', 30)] noon
     = Inr (([''2024-06-01T12:00:00Z'', ''2024-06-01T10:00:00Z'', ''2024-06-01T11:00:00Z''],
             [35, 28, 30]),
            ([''2024-06-01T13:00:00Z'', ''2024-06-01T14:00:00Z'', ''2024-06-01T12:00:00Z''],
             [40, 45, 35]))
   \<and> \<not> sorted [''2024-06-01T12:00:00Z'', ''2024-06-01T10:00:00Z'', ''2024-06-01T11:00:00Z'']
   \<and> \<not> sorted [''2024-06-01T13:00:00Z'', ''2024-06-01T14:00:00Z'', ''2024-06-01T12:00:00Z'']"
proof -
  have "chart_traces [(''2024-06-01T13:00:00Z'', 40), (''2024-06-01T14:00:00Z'', 45),
                    (''2024-06-01T12:00:00Z'', 35), (''2024-06-01T10:00:00Z'', 28),
                    (''2024-06-01T11:00:00Z'', 30)] noon
     = Inr (([''2024-06-01T12:00:00Z'', ''2024-06-01T10:00:00Z'', ''2024-06-01T11:00:00Z''],
             [35, 28, 30]),
            ([''2024-06-01T13:00:00Z'', ''2024-06-01T14:00:00Z'', ''2024-06-01T12:00:00Z''],
             [40, 45, 35]))"
    by (simp add: chart_traces_def observed_trace_def forecast_trace_def getitem_def noon_def)
  moreover have
    "\<not> sorted [''2024-06-01T12:00:00Z'', ''2024-06-01T10:00:00Z'', ''2024-06-01T11:00:00Z'']"
    "\<not> sorted [''2024-06-01T13:00:00Z'', ''2024-06-01T14:00:00Z'', ''2024-06-01T12:00:00Z'']"
    by simp_all
  ultimately show ?thesis using noon_run by simp
qed

subsection \<open>Prompt Builder\<close>

text \<open>
  C10: the call of lines 184-190 passes five arguments to a function of seven required
  parameters, so for all argument values it raises TypeError and returns no prompt.
\<close>

theorem C10_prompt_call_raises:
  "callback_prompt fmt patient_gender birth_isostring all_health_conditions now aqi_results
     = Inl TypeError"
  by (simp add: callback_prompt_def generate_prompt_def)

end
